theory Spec2Isabelle
  imports Main "HOL-Library.Word"
begin

unbundle bit_operations_syntax

section \<open>Data model\<close>

text \<open>
  The file \<^verbatim>\<open>struct.go\<close> defines the struct view and its operations.  The integer types
  it names (\<^verbatim>\<open>Size\<close>, \<^verbatim>\<open>Address\<close>, \<^verbatim>\<open>DataOffset\<close>, \<^verbatim>\<open>BitOffset\<close>), the segment and the pointer
  collaborators are declared in other files of the package.  Fixed-width Go integers are
  words, so that \<open>+\<close> and \<open>*\<close> wrap as they do in Go.
\<close>

text \<open>Modelled from the spec: \<^verbatim>\<open>Size\<close>, \<^verbatim>\<open>Address\<close>, \<^verbatim>\<open>DataOffset\<close> and \<^verbatim>\<open>BitOffset\<close> are
  byte (bit) counts inside a segment; their Go declarations are not in \<^verbatim>\<open>struct.go\<close>.  The
  package declares each of them as \<^verbatim>\<open>uint32\<close>.\<close>

type_synonym Size = "32 word"
type_synonym Address = "32 word"
type_synonym DataOffset = "32 word"
type_synonym BitOffset = "32 word"
type_synonym byte = "8 word"
type_synonym rawPointer = "64 word"

text \<open>A \<^verbatim>\<open>*Segment\<close> is \<open>None\<close> (nil) or the identity of a segment; the store maps every
  segment to the bytes it owns.\<close>

type_synonym SegmentRef = "nat option"
type_synonym store = "nat \<Rightarrow> byte list"

record ObjectSize =
  DataSize :: Size
  PointerCount :: "16 word"

record Struct =
  seg :: SegmentRef
  off :: Address
  size' :: ObjectSize
  flags :: "8 word"

text \<open>The Go zero value \<^verbatim>\<open>Struct{}\<close>.\<close>

definition zeroStruct :: Struct where
  "zeroStruct = \<lparr>seg = None, off = 0, size' = \<lparr>DataSize = 0, PointerCount = 0\<rparr>, flags = 0\<rparr>"

text \<open>Go error values.  \<^verbatim>\<open>errObjectSize\<close> and \<^verbatim>\<open>errOutOfBounds\<close> are named in \<^verbatim>\<open>struct.go\<close>;
  the others are the failures of the collaborators that the spec names.\<close>

datatype error = errObjectSize | errOutOfBounds | NestingTooDeep | MalformedDefault
  | AllocError | errPointerAddress | OtherError nat

text \<open>A panic carries the value given to \<^verbatim>\<open>panic\<close>, or is a run-time panic of Go itself
  (a nil dereference, a slice bound out of range).\<close>

datatype panic = PanicError error | RuntimeNilDereference | RuntimeBounds

datatype 'a outcome = Returns 'a | Panics panic

text \<open>The \<^verbatim>\<open>Pointer\<close> interface: nil, a struct, or a pointer of another kind (list,
  interface) of which only the segment matters here.\<close>

datatype Pointer = NilPointer | StructPointer Struct | OtherPointer SegmentRef nat

text \<open>Modelled from the spec: the copy context is a small value holding the explicit
  recursion-depth counter; \<^verbatim>\<open>incDepth\<close> returns it with the counter incremented.\<close>

record copyContext =
  depth :: nat

definition incDepth :: "copyContext \<Rightarrow> copyContext" where
  "incDepth cc = cc\<lparr>depth := depth cc + 1\<rparr>"

section \<open>Sizes, addresses and bit offsets\<close>

definition wordSize :: Size where
  "wordSize = 8"

text \<open>Modelled from the spec: \<^verbatim>\<open>padToWord\<close> rounds a size up to the nearest word.\<close>

definition padToWord :: "Size \<Rightarrow> Size" where
  "padToWord sz = (sz + (wordSize - 1)) AND NOT (wordSize - 1)"

text \<open>Modelled from the spec: \<open>totalSize = DataSize + PointerCount*8\<close>.\<close>

definition totalSize :: "ObjectSize \<Rightarrow> Size" where
  "totalSize sz = DataSize sz + wordSize * ucast (PointerCount sz)"

text \<open>Modelled from the spec: a size is valid when \<open>DataSize\<close> and \<open>PointerCount\<close> are within
  representable bounds.  \<open>PointerCount\<close> is a \<^verbatim>\<open>uint16\<close>; the data section likewise has to
  count at most \<open>0xffff\<close> words.\<close>

definition isValid :: "ObjectSize \<Rightarrow> bool" where
  "isValid sz \<longleftrightarrow> DataSize sz \<le> 0xffff * wordSize"

text \<open>Modelled from the spec: \<open>addr = base + offset\<close>; slot \<open>i\<close> is at \<open>base+DataSize+i*8\<close>.\<close>

definition addSize :: "Address \<Rightarrow> Size \<Rightarrow> Address" where
  "addSize a sz = a + sz"

definition addOffset :: "Address \<Rightarrow> DataOffset \<Rightarrow> Address" where
  "addOffset a o' = a + o'"

definition element :: "Address \<Rightarrow> 32 word \<Rightarrow> Size \<Rightarrow> Address" where
  "element a i sz = a + sz * i"

text \<open>Modelled from the spec: \<open>offset() = bit/8\<close>, \<open>mask() = 1 << (bit%8)\<close>.\<close>

definition offset :: "BitOffset \<Rightarrow> DataOffset" where
  "offset n = n div 8"

definition mask' :: "BitOffset \<Rightarrow> byte" where
  "mask' n = push_bit (unat (n mod 8)) 1"

section \<open>The segment collaborator\<close>

text \<open>Modelled from the spec: \<open>slice(address, length)\<close> is the byte view
  \<^verbatim>\<open>data[address : address+length]\<close> of the segment.  Go panics when the segment is nil or
  the bounds are not \<open>lo \<le> hi \<le> len\<close>.\<close>

definition slice :: "store \<Rightarrow> SegmentRef \<Rightarrow> Address \<Rightarrow> Size \<Rightarrow> byte list outcome" where
  "slice st s base sz =
     (case s of
        None \<Rightarrow> Panics RuntimeNilDereference
      | Some i \<Rightarrow>
          (let lo = unat base; hi = unat (addSize base sz) in
           if lo \<le> hi \<and> hi \<le> length (st i)
           then Returns (take (hi - lo) (drop lo (st i)))
           else Panics RuntimeBounds))"

text \<open>Writing through a byte view replaces the bytes of the segment at the view's place.\<close>

definition putBytes :: "store \<Rightarrow> nat \<Rightarrow> nat \<Rightarrow> byte list \<Rightarrow> store" where
  "putBytes st i lo bs = st(i := take lo (st i) @ bs @ drop (lo + length bs) (st i))"

text \<open>Modelled from the spec: raw little-endian read and write of 8/16/32/64-bit words at
  an address.\<close>

fun le_word :: "byte list \<Rightarrow> 'a::len word" where
  "le_word [] = 0"
| "le_word (b # bs) = ucast b OR push_bit 8 (le_word bs)"

fun le_bytes :: "nat \<Rightarrow> 'a::len word \<Rightarrow> byte list" where
  "le_bytes 0 v = []"
| "le_bytes (Suc n) v = ucast v # le_bytes n (drop_bit 8 v)"

definition readUint :: "nat \<Rightarrow> store \<Rightarrow> SegmentRef \<Rightarrow> Address \<Rightarrow> ('a::len word) outcome" where
  "readUint n st s addr =
     (case slice st s addr (of_nat n) of
        Panics x \<Rightarrow> Panics x
      | Returns bs \<Rightarrow> Returns (le_word bs))"

definition writeUint :: "nat \<Rightarrow> store \<Rightarrow> SegmentRef \<Rightarrow> Address \<Rightarrow> 'a::len word \<Rightarrow> store outcome" where
  "writeUint n st s addr v =
     (case slice st s addr (of_nat n) of
        Panics x \<Rightarrow> Panics x
      | Returns bs \<Rightarrow> Returns (putBytes st (the s) (unat addr) (le_bytes n v)))"

definition readUint8 :: "store \<Rightarrow> SegmentRef \<Rightarrow> Address \<Rightarrow> 8 word outcome" where
  "readUint8 = readUint 1"

definition readUint16 :: "store \<Rightarrow> SegmentRef \<Rightarrow> Address \<Rightarrow> 16 word outcome" where
  "readUint16 = readUint 2"

definition readUint32 :: "store \<Rightarrow> SegmentRef \<Rightarrow> Address \<Rightarrow> 32 word outcome" where
  "readUint32 = readUint 4"

definition readUint64 :: "store \<Rightarrow> SegmentRef \<Rightarrow> Address \<Rightarrow> 64 word outcome" where
  "readUint64 = readUint 8"

definition writeUint8 :: "store \<Rightarrow> SegmentRef \<Rightarrow> Address \<Rightarrow> 8 word \<Rightarrow> store outcome" where
  "writeUint8 = writeUint 1"

definition writeUint16 :: "store \<Rightarrow> SegmentRef \<Rightarrow> Address \<Rightarrow> 16 word \<Rightarrow> store outcome" where
  "writeUint16 = writeUint 2"

definition writeUint32 :: "store \<Rightarrow> SegmentRef \<Rightarrow> Address \<Rightarrow> 32 word \<Rightarrow> store outcome" where
  "writeUint32 = writeUint 4"

definition writeUint64 :: "store \<Rightarrow> SegmentRef \<Rightarrow> Address \<Rightarrow> 64 word \<Rightarrow> store outcome" where
  "writeUint64 = writeUint 8"

text \<open>Modelled from the spec: a pointer word is read and written as one 64-bit word.\<close>

definition readRawPointer :: "store \<Rightarrow> SegmentRef \<Rightarrow> Address \<Rightarrow> rawPointer outcome" where
  "readRawPointer = readUint 8"

definition writeRawPointer :: "store \<Rightarrow> SegmentRef \<Rightarrow> Address \<Rightarrow> rawPointer \<Rightarrow> store outcome" where
  "writeRawPointer = writeUint 8"

section \<open>Struct operations (struct.go)\<close>

text \<open>\<^verbatim>\<open>NewStruct\<close>.  The allocator is a collaborator: given the store, the preferred segment
  and a byte count it returns the store, the segment and address of the new bytes and an
  error value.\<close>

type_synonym allocator = "store \<Rightarrow> SegmentRef \<Rightarrow> Size \<Rightarrow> (store \<times> SegmentRef \<times> Address \<times> error option) outcome"

definition NewStruct :: "allocator \<Rightarrow> store \<Rightarrow> SegmentRef \<Rightarrow> ObjectSize \<Rightarrow> (store \<times> Struct \<times> error option) outcome" where
  "NewStruct alloc st s sz =
     (if \<not> isValid sz then Returns (st, zeroStruct, Some errObjectSize)
      else
        (let sz1 = sz\<lparr>DataSize := padToWord (DataSize sz)\<rparr> in
         case alloc st s (totalSize sz1) of
           Panics x \<Rightarrow> Panics x
         | Returns (st1, seg1, addr, Some err) \<Rightarrow> Returns (st1, zeroStruct, Some err)
         | Returns (st1, seg1, addr, None) \<Rightarrow>
             Returns (st1, \<lparr>seg = seg1, off = addr, size' = sz1, flags = 0\<rparr>, None)))"

text \<open>Modelled from the spec: \<open>isValid(PointerValue)\<close>; a pointer is valid when it is not nil
  and has a segment.\<close>

definition Segment :: "Pointer \<Rightarrow> SegmentRef" where
  "Segment p = (case p of NilPointer \<Rightarrow> None | StructPointer s \<Rightarrow> seg s | OtherPointer sg k \<Rightarrow> sg)"

definition IsValid :: "Pointer \<Rightarrow> bool" where
  "IsValid p \<longleftrightarrow> p \<noteq> NilPointer \<and> Segment p \<noteq> None"

definition ToStruct :: "Pointer \<Rightarrow> Struct" where
  "ToStruct p =
     (if \<not> IsValid p then zeroStruct
      else case p of StructPointer s \<Rightarrow> s | _ \<Rightarrow> zeroStruct)"

text \<open>\<^verbatim>\<open>ToStructDefault\<close>.  \<^verbatim>\<open>def\<close> is a byte slice, \<open>None\<close> when nil; the decoder of
  default templates is a collaborator.\<close>

type_synonym unmarshaller = "byte list \<Rightarrow> Pointer \<times> error option"

definition fallback :: "unmarshaller \<Rightarrow> byte list option \<Rightarrow> Struct \<times> error option" where
  "fallback unmarshalDefault def =
     (case def of
        None \<Rightarrow> (zeroStruct, None)
      | Some bs \<Rightarrow>
          (case unmarshalDefault bs of
             (defp, Some err) \<Rightarrow> (zeroStruct, Some err)
           | (defp, None) \<Rightarrow> (ToStruct defp, None)))"

definition ToStructDefault :: "unmarshaller \<Rightarrow> Pointer \<Rightarrow> byte list option \<Rightarrow> Struct \<times> error option" where
  "ToStructDefault unmarshalDefault p def =
     (if \<not> IsValid p then fallback unmarshalDefault def
      else case p of
             StructPointer s \<Rightarrow> (s, None)
           | _ \<Rightarrow> fallback unmarshalDefault def)"

definition HasData :: "Struct \<Rightarrow> bool" where
  "HasData p \<longleftrightarrow> \<not> (DataSize (size' p) = 0 \<and> PointerCount (size' p) = 0)"

definition pointerAddress :: "Struct \<Rightarrow> 16 word \<Rightarrow> Address" where
  "pointerAddress p i =
     (let ptrStart = addSize (off p) (DataSize (size' p)) in element ptrStart (ucast i) wordSize)"

text \<open>\<^verbatim>\<open>Pointer\<close> and \<^verbatim>\<open>SetPointer\<close>.  The segment's \<^verbatim>\<open>readPtr\<close> and \<^verbatim>\<open>writePtr\<close> belong to
  the pointer-encoding collaborator and are parameters; both return an error value.\<close>

type_synonym 'p ptrReader = "store \<Rightarrow> SegmentRef \<Rightarrow> Address \<Rightarrow> ('p \<times> error option) outcome"
type_synonym 'p ptrWriter = "copyContext \<Rightarrow> store \<Rightarrow> SegmentRef \<Rightarrow> Address \<Rightarrow> 'p \<Rightarrow> (store \<times> error option) outcome"

definition Pointer :: "Pointer ptrReader \<Rightarrow> store \<Rightarrow> Struct \<Rightarrow> 16 word \<Rightarrow> (Pointer \<times> error option) outcome" where
  "Pointer readPtr st p i =
     (if seg p = None \<or> i \<ge> PointerCount (size' p) then Returns (NilPointer, None)
      else readPtr st (seg p) (pointerAddress p i))"

definition SetPointer :: "'p ptrWriter \<Rightarrow> store \<Rightarrow> Struct \<Rightarrow> 16 word \<Rightarrow> 'p \<Rightarrow> (store \<times> error option) outcome" where
  "SetPointer writePtr st p i src =
     (if seg p = None \<or> i \<ge> PointerCount (size' p) then Panics (PanicError errOutOfBounds)
      else writePtr \<lparr>depth = 0\<rparr> st (seg p) (pointerAddress p i) src)"

definition bitInData :: "Struct \<Rightarrow> BitOffset \<Rightarrow> bool" where
  "bitInData p n \<longleftrightarrow> seg p \<noteq> None \<and> n < DataSize (size' p) * 8"

definition Bit :: "store \<Rightarrow> Struct \<Rightarrow> BitOffset \<Rightarrow> bool outcome" where
  "Bit st p n =
     (if \<not> bitInData p n then Returns False
      else
        (let addr = addOffset (off p) (offset n) in
         case readUint8 st (seg p) addr of
           Panics x \<Rightarrow> Panics x
         | Returns b \<Rightarrow> Returns (b AND mask' n \<noteq> 0)))"

definition SetBit :: "store \<Rightarrow> Struct \<Rightarrow> BitOffset \<Rightarrow> bool \<Rightarrow> store outcome" where
  "SetBit st p n v =
     (if \<not> bitInData p n then Panics (PanicError errOutOfBounds)
      else
        (let addr = addOffset (off p) (offset n) in
         case readUint8 st (seg p) addr of
           Panics x \<Rightarrow> Panics x
         | Returns b \<Rightarrow>
             (let b1 = (if v then b OR mask' n else b AND NOT (mask' n)) in
              writeUint8 st (seg p) addr b1)))"

definition dataAddress :: "Struct \<Rightarrow> DataOffset \<Rightarrow> Size \<Rightarrow> Address \<times> bool" where
  "dataAddress p off' sz =
     (if seg p = None \<or> off' + sz > DataSize (size' p) then (0, False)
      else (addOffset (off p) off', True))"

definition Uint8 :: "store \<Rightarrow> Struct \<Rightarrow> DataOffset \<Rightarrow> 8 word outcome" where
  "Uint8 st p off' =
     (case dataAddress p off' 1 of
        (addr, ok) \<Rightarrow> if \<not> ok then Returns 0 else readUint8 st (seg p) addr)"

definition Uint16 :: "store \<Rightarrow> Struct \<Rightarrow> DataOffset \<Rightarrow> 16 word outcome" where
  "Uint16 st p off' =
     (case dataAddress p off' 2 of
        (addr, ok) \<Rightarrow> if \<not> ok then Returns 0 else readUint16 st (seg p) addr)"

definition Uint32 :: "store \<Rightarrow> Struct \<Rightarrow> DataOffset \<Rightarrow> 32 word outcome" where
  "Uint32 st p off' =
     (case dataAddress p off' 4 of
        (addr, ok) \<Rightarrow> if \<not> ok then Returns 0 else readUint32 st (seg p) addr)"

definition Uint64 :: "store \<Rightarrow> Struct \<Rightarrow> DataOffset \<Rightarrow> 64 word outcome" where
  "Uint64 st p off' =
     (case dataAddress p off' 8 of
        (addr, ok) \<Rightarrow> if \<not> ok then Returns 0 else readUint64 st (seg p) addr)"

definition SetUint8 :: "store \<Rightarrow> Struct \<Rightarrow> DataOffset \<Rightarrow> 8 word \<Rightarrow> store outcome" where
  "SetUint8 st p off' v =
     (case dataAddress p off' 1 of
        (addr, ok) \<Rightarrow> if \<not> ok then Panics (PanicError errOutOfBounds)
                      else writeUint8 st (seg p) addr v)"

definition SetUint16 :: "store \<Rightarrow> Struct \<Rightarrow> DataOffset \<Rightarrow> 16 word \<Rightarrow> store outcome" where
  "SetUint16 st p off' v =
     (case dataAddress p off' 2 of
        (addr, ok) \<Rightarrow> if \<not> ok then Panics (PanicError errOutOfBounds)
                      else writeUint16 st (seg p) addr v)"

definition SetUint32 :: "store \<Rightarrow> Struct \<Rightarrow> DataOffset \<Rightarrow> 32 word \<Rightarrow> store outcome" where
  "SetUint32 st p off' v =
     (case dataAddress p off' 4 of
        (addr, ok) \<Rightarrow> if \<not> ok then Panics (PanicError errOutOfBounds)
                      else writeUint32 st (seg p) addr v)"

definition SetUint64 :: "store \<Rightarrow> Struct \<Rightarrow> DataOffset \<Rightarrow> 64 word \<Rightarrow> store outcome" where
  "SetUint64 st p off' v =
     (case dataAddress p off' 8 of
        (addr, ok) \<Rightarrow> if \<not> ok then Panics (PanicError errOutOfBounds)
                      else writeUint64 st (seg p) addr v)"

text \<open>\<^verbatim>\<open>copyStruct\<close>.  The first loop runs \<open>j\<close> from 0 while \<open>j < numSrcPtrs\<close> and
  \<open>j < numDstPtrs\<close>; the second from \<open>numSrcPtrs\<close> while \<open>j < numDstPtrs\<close>.  The counter
  is a \<^verbatim>\<open>uint16\<close>.\<close>

function copyPtrs :: "'p ptrReader \<Rightarrow> 'p ptrWriter \<Rightarrow> copyContext \<Rightarrow> Struct \<Rightarrow> Struct \<Rightarrow> 16 word \<Rightarrow> store
    \<Rightarrow> (store \<times> error option) outcome" where
  "copyPtrs readPtr writePtr cc dst src j st =
     (let srcPtrSect = addSize (off src) (DataSize (size' src));
          dstPtrSect = addSize (off dst) (DataSize (size' dst));
          numSrcPtrs = PointerCount (size' src);
          numDstPtrs = PointerCount (size' dst)
      in
      if j < numSrcPtrs \<and> j < numDstPtrs then
        (let srcAddr = element srcPtrSect (ucast j) wordSize;
             dstAddr = element dstPtrSect (ucast j) wordSize
         in
         case readPtr st (seg src) srcAddr of
           Panics x \<Rightarrow> Panics x
         | Returns (m, Some err) \<Rightarrow> Returns (st, Some err)
         | Returns (m, None) \<Rightarrow>
             (case writePtr (incDepth cc) st (seg dst) dstAddr m of
                Panics x \<Rightarrow> Panics x
              | Returns (st1, Some err) \<Rightarrow> Returns (st1, Some err)
              | Returns (st1, None) \<Rightarrow> copyPtrs readPtr writePtr cc dst src (j + 1) st1))
      else Returns (st, None))"
  by pat_completeness auto
termination
proof (relation "measure (\<lambda>(readPtr, writePtr, cc, dst, src, j, st). unat (PointerCount (size' dst)) - unat j)",
    goal_cases)
  case 1
  show ?case by simp
next
  case (2 readPtr writePtr cc dst src j st srcPtrSect dstPtrSect numSrcPtrs numDstPtrs)
  then have "j < PointerCount (size' dst)" by simp
  then have "unat (PointerCount (size' dst)) - unat (j + 1) < unat (PointerCount (size' dst)) - unat j"
    by unat_arith
  then show ?case by simp
qed

function zeroPtrs :: "Struct \<Rightarrow> 16 word \<Rightarrow> store \<Rightarrow> store outcome" where
  "zeroPtrs dst j st =
     (let dstPtrSect = addSize (off dst) (DataSize (size' dst));
          numDstPtrs = PointerCount (size' dst)
      in
      if j < numDstPtrs then
        (let addr = element dstPtrSect (ucast j) wordSize in
         case writeRawPointer st (seg dst) addr 0 of
           Panics x \<Rightarrow> Panics x
         | Returns st1 \<Rightarrow> zeroPtrs dst (j + 1) st1)
      else Returns st)"
  by pat_completeness auto
termination
proof (relation "measure (\<lambda>(dst, j, st). unat (PointerCount (size' dst)) - unat j)", goal_cases)
  case 1
  show ?case by simp
next
  case (2 dst j st dstPtrSect numDstPtrs)
  then have "j < PointerCount (size' dst)" by simp
  then have "unat (PointerCount (size' dst)) - unat (j + 1) < unat (PointerCount (size' dst)) - unat j"
    by unat_arith
  then show ?case by simp
qed

text \<open>Go's \<^verbatim>\<open>copy\<close> moves \<open>min(len(dst), len(src))\<close> bytes and allows the two views to overlap:
  the destination receives the bytes the source held before the call.  The loop after it
  zeroes the rest of the destination view.\<close>

definition copyStruct :: "'p ptrReader \<Rightarrow> 'p ptrWriter \<Rightarrow> copyContext \<Rightarrow> Struct \<Rightarrow> Struct \<Rightarrow> store
    \<Rightarrow> (store \<times> error option) outcome" where
  "copyStruct readPtr writePtr cc dst src st =
     (if seg dst = None then Returns (st, None)
      else
        (case slice st (seg src) (off src) (DataSize (size' src)) of
           Panics x \<Rightarrow> Panics x
         | Returns srcData \<Rightarrow>
        (case slice st (seg dst) (off dst) (DataSize (size' dst)) of
           Panics x \<Rightarrow> Panics x
         | Returns dstData \<Rightarrow>
             (let copyCount = min (length dstData) (length srcData);
                  d = the (seg dst);
                  st1 = putBytes st d (unat (off dst)) (take copyCount srcData);
                  st2 = putBytes st1 d (unat (off dst) + copyCount)
                          (replicate (length dstData - copyCount) 0)
              in
              case copyPtrs readPtr writePtr cc dst src 0 st2 of
                Panics x \<Rightarrow> Panics x
              | Returns (st3, Some err) \<Rightarrow> Returns (st3, Some err)
              | Returns (st3, None) \<Rightarrow>
                  (case zeroPtrs dst (PointerCount (size' src)) st3 of
                     Panics x \<Rightarrow> Panics x
                   | Returns st4 \<Rightarrow> Returns (st4, None))))))"

section \<open>The pointer-encoding collaborator\<close>

text \<open>Modelled from the spec: \<open>decode(encoded) -> PointerValue\<close> on the word read at an
  address.  The spec leaves the encoding to the collaborator; the model decodes the null
  word and the struct pointer word of the wire format (two type bits 0, a signed 30-bit
  word offset from the end of the pointer, a 16-bit data word count, a 16-bit pointer
  count) and checks that the struct lies inside the segment.  Every other word is a
  pointer of another kind.\<close>

definition regionInBounds :: "store \<Rightarrow> SegmentRef \<Rightarrow> Address \<Rightarrow> Size \<Rightarrow> bool" where
  "regionInBounds st s a sz =
     (case s of None \<Rightarrow> False | Some i \<Rightarrow> unat a + unat sz \<le> length (st i))"

definition structSize :: "rawPointer \<Rightarrow> ObjectSize" where
  "structSize val =
     \<lparr>DataSize = wordSize * ucast (ucast (drop_bit 32 val) :: 16 word),
      PointerCount = ucast (drop_bit 48 val)\<rparr>"

definition resolve :: "rawPointer \<Rightarrow> Address \<Rightarrow> Address" where
  "resolve val paddr = paddr + wordSize + wordSize * signed_drop_bit 2 (ucast val)"

definition readPtr :: "Pointer ptrReader" where
  "readPtr st s addr =
     (case readRawPointer st s addr of
        Panics x \<Rightarrow> Panics x
      | Returns val \<Rightarrow>
          if val = 0 then Returns (NilPointer, None)
          else if val AND 3 = 0 then
            (let a = resolve val addr; sz = structSize val in
             if regionInBounds st s a (totalSize sz)
             then Returns (StructPointer \<lparr>seg = s, off = a, size' = sz, flags = 0\<rparr>, None)
             else Returns (NilPointer, Some errPointerAddress))
          else Returns (OtherPointer s (unat val), None))"

text \<open>
  \<^verbatim>\<open>Struct.value\<close> (struct.go) encodes a struct as the raw pointer word stored at \<open>paddr\<close>.
  Modelled from the spec: \<open>encode(PointerValue) -> encoded\<close>; the word of a struct holds
  the type bits 0, the signed offset in words from the end of the pointer to the struct,
  the data size in words and the pointer count.
\<close>

definition makePointerOffset :: "Address \<Rightarrow> Address \<Rightarrow> 32 word" where
  "makePointerOffset paddr a = signed_drop_bit 3 (a - (paddr + wordSize))"

definition rawStructPointer :: "32 word \<Rightarrow> ObjectSize \<Rightarrow> rawPointer" where
  "rawStructPointer off' sz =
     ucast (push_bit 2 off' :: 32 word)
       OR push_bit 32 (ucast (ucast (DataSize sz div wordSize) :: 16 word))
       OR push_bit 48 (ucast (PointerCount sz))"

definition value' :: "Struct \<Rightarrow> Address \<Rightarrow> rawPointer" where
  "value' p paddr = (let off' = makePointerOffset paddr (off p) in rawStructPointer off' (size' p))"

section \<open>The allocator collaborator\<close>

text \<open>Modelled from the spec: \<open>allocate(byteCount) -> (segment, address) | AllocError\<close> on a
  growable byte buffer.  The model appends zeroed bytes at the end of the preferred
  segment while the segment stays within the arena's capacity \<open>cap\<close>, and fails with
  \<open>AllocError\<close> otherwise.\<close>

definition alloc :: "nat \<Rightarrow> allocator" where
  "alloc cap st s sz =
     (case s of
        None \<Rightarrow> Panics RuntimeNilDereference
      | Some i \<Rightarrow>
          if length (st i) + unat sz \<le> cap
          then Returns (st(i := st i @ replicate (unat sz) 0), Some i, of_nat (length (st i)), None)
          else Returns (st, None, 0, Some AllocError))"

text \<open>The spec's words for the size of the data section of a new struct: \<open>DataSize\<close> rounded
  up to the nearest 8-byte word.\<close>

definition roundedDataSize :: "ObjectSize \<Rightarrow> nat" where
  "roundedDataSize sz = 8 * ((unat (DataSize sz) + 7) div 8)"

section \<open>Backed struct views\<close>

text \<open>A struct view is backed when it has a segment, its size is valid and its data and
  pointer sections lie inside the bytes of that segment.  Addresses are 32-bit, so a
  segment is shorter than \<open>2^32\<close> bytes.  Every Struct that \<^verbatim>\<open>NewStruct\<close> or the pointer
  decoder returns over a segment is of this kind.\<close>

definition backed :: "store \<Rightarrow> Struct \<Rightarrow> bool" where
  "backed st p \<longleftrightarrow>
     (case seg p of
        None \<Rightarrow> False
      | Some i \<Rightarrow>
          isValid (size' p) \<and>
          unat (off p) + unat (DataSize (size' p)) + 8 * unat (PointerCount (size' p)) \<le> length (st i) \<and>
          length (st i) < 2 ^ 32)"

section \<open>The copy in the words of the spec\<close>

text \<open>The definitions of this section follow the spec's description of the versioned deep
  copy (data section, then pointer section); they are compared with \<^verbatim>\<open>copyStruct\<close> below.\<close>

declare copyPtrs.simps [simp del] zeroPtrs.simps [simp del]

text \<open>Slot \<open>j\<close> of the pointer section is at \<open>base + DataSize + j*8\<close>.\<close>

definition slotAddress :: "Struct \<Rightarrow> nat \<Rightarrow> Address" where
  "slotAddress p j = off p + DataSize (size' p) + 8 * of_nat j"

text \<open>For slot \<open>j\<close> of a list of slots, in order: read the decoded pointer from source slot
  \<open>j\<close> and write a deep copy of it into destination slot \<open>j\<close> with the context given; any
  failure aborts the copy and is returned.\<close>

fun copySlots :: "'p ptrReader \<Rightarrow> 'p ptrWriter \<Rightarrow> copyContext \<Rightarrow> Struct \<Rightarrow> Struct \<Rightarrow> nat list \<Rightarrow> store
    \<Rightarrow> (store \<times> error option) outcome" where
  "copySlots rd wr cc dst src [] st = Returns (st, None)"
| "copySlots rd wr cc dst src (j # js) st =
     (case rd st (seg src) (slotAddress src j) of
        Panics x \<Rightarrow> Panics x
      | Returns (m, Some err) \<Rightarrow> Returns (st, Some err)
      | Returns (m, None) \<Rightarrow>
          (case wr cc st (seg dst) (slotAddress dst j) m of
             Panics x \<Rightarrow> Panics x
           | Returns (st1, Some err) \<Rightarrow> Returns (st1, Some err)
           | Returns (st1, None) \<Rightarrow> copySlots rd wr cc dst src js st1))"

text \<open>Zero the destination slots of a list of slots.\<close>

fun zeroSlots :: "Struct \<Rightarrow> nat list \<Rightarrow> store \<Rightarrow> store outcome" where
  "zeroSlots dst [] st = Returns st"
| "zeroSlots dst (j # js) st =
     (case writeRawPointer st (seg dst) (slotAddress dst j) 0 of
        Panics x \<Rightarrow> Panics x
      | Returns st1 \<Rightarrow> zeroSlots dst js st1)"

text \<open>The pointer section: with \<open>n = min(srcPointerCount, dstPointerCount)\<close>, copy the
  slots \<open>[0, n)\<close> with the depth of the context incremented, then zero the slots
  \<open>[n, dstPointerCount)\<close>.\<close>

definition copyPointerSection :: "'p ptrReader \<Rightarrow> 'p ptrWriter \<Rightarrow> copyContext \<Rightarrow> Struct \<Rightarrow> Struct \<Rightarrow> store
    \<Rightarrow> (store \<times> error option) outcome" where
  "copyPointerSection rd wr cc dst src st =
     (let n = min (unat (PointerCount (size' src))) (unat (PointerCount (size' dst))) in
      case copySlots rd wr (incDepth cc) dst src [0..<n] st of
        Panics x \<Rightarrow> Panics x
      | Returns (st1, Some err) \<Rightarrow> Returns (st1, Some err)
      | Returns (st1, None) \<Rightarrow>
          (case zeroSlots dst [n..<unat (PointerCount (size' dst))] st1 of
             Panics x \<Rightarrow> Panics x
           | Returns st2 \<Rightarrow> Returns (st2, None)))"

text \<open>The data section: the destination's data bytes become the first
  \<open>min(srcDataSize, dstDataSize)\<close> data bytes of the source followed by zeros; every other
  byte of the store stays.\<close>

definition copyDataSection :: "store \<Rightarrow> Struct \<Rightarrow> Struct \<Rightarrow> store" where
  "copyDataSection st dst src =
     (let d = the (seg dst); s = the (seg src);
          n = min (unat (DataSize (size' src))) (unat (DataSize (size' dst)))
      in st(d := take (unat (off dst)) (st d)
                 @ take n (drop (unat (off src)) (st s))
                 @ replicate (unat (DataSize (size' dst)) - n) 0
                 @ drop (unat (off dst) + unat (DataSize (size' dst))) (st d)))"

section \<open>The deep copy of the pointer collaborator\<close>

text \<open>The loop of \<^verbatim>\<open>copyStruct\<close> over the common slots is the iteration over the list of their
  indices; it consults the pointer writer only with the incremented context.  The
  definition of the deep copy below rests on this.\<close>

lemma element_slot:
  "element (addSize (off p) (DataSize (size' p))) (ucast (j :: 16 word)) wordSize = slotAddress p (unat j)"
  by (simp add: element_def addSize_def wordSize_def slotAddress_def)

lemma upt_word_step:
  "(j :: 16 word) < k \<Longrightarrow> [unat j..<unat k] = unat j # [unat (j + 1)..<unat k]"
proof -
  assume "j < k"
  then have "unat (j + 1) = Suc (unat j)" and "unat j < unat k" by unat_arith+
  then show ?thesis by (simp add: upt_conv_Cons)
qed

lemma copyPtrs_copySlots:
  "copyPtrs rd wr cc dst src j st =
     copySlots rd wr (incDepth cc) dst src
       [unat j..<unat (min (PointerCount (size' src)) (PointerCount (size' dst)))] st"
proof (induction rd wr cc dst src j st rule: copyPtrs.induct)
  case (1 rd wr cc dst src j st)
  let ?m = "min (PointerCount (size' src)) (PointerCount (size' dst))"
  show ?case
  proof (cases "j < ?m")
    case True
    then have c: "j < PointerCount (size' src) \<and> j < PointerCount (size' dst)" by simp
    note step = upt_word_step [OF True]
    show ?thesis
      apply (subst copyPtrs.simps)
      apply (subst step)
      using c
      apply (simp add: Let_def element_slot del: copyPtrs.simps split: outcome.splits prod.splits option.splits)
      apply (intro allI impI)
      apply (rule "1.IH" [OF refl refl refl refl _ refl refl])
      apply (simp_all add: element_slot)
      done
  next
    case False
    then have "\<not> (j < PointerCount (size' src) \<and> j < PointerCount (size' dst))" by simp
    moreover from False have "unat ?m \<le> unat j" by (simp add: word_less_nat_alt)
    ultimately show ?thesis
      by (subst copyPtrs.simps) (auto simp add: Let_def simp del: copyPtrs.simps)
  qed
qed

lemma copySlots_writer:
  assumes "\<And>st2 s a p. wr cc st2 s a p = wr' cc st2 s a p"
  shows "copySlots rd wr cc dst src js st = copySlots rd wr' cc dst src js st"
proof (induction js arbitrary: st)
  case Nil
  show ?case by simp
next
  case (Cons j js)
  show ?case
    by (simp add: assms Cons split: outcome.splits option.splits prod.splits)
qed

lemma copyPtrs_cong [fundef_cong]:
  assumes "rd = rd'" and "cc = cc'" and "dst = dst'" and "src = src'" and "j = j'" and "st = st'"
    and "\<And>st2 s a p. wr (incDepth cc') st2 s a p = wr' (incDepth cc') st2 s a p"
  shows "copyPtrs rd wr cc dst src j st = copyPtrs rd' wr' cc' dst' src' j' st'"
  unfolding assms(1-6) copyPtrs_copySlots
  by (rule copySlots_writer) (rule assms(7))

lemma copyStruct_cong [fundef_cong]:
  assumes "rd = rd'" and "cc = cc'" and "dst = dst'" and "src = src'" and "st = st'"
    and "\<And>st2 s a p. wr (incDepth cc') st2 s a p = wr' (incDepth cc') st2 s a p"
  shows "copyStruct rd wr cc dst src st = copyStruct rd' wr' cc' dst' src' st'"
proof -
  have "copyPtrs rd' wr cc' dst' src' j st2 = copyPtrs rd' wr' cc' dst' src' j st2" for j st2
    by (rule copyPtrs_cong) (simp_all add: assms(6))
  then have "copyPtrs rd' wr cc' dst' src' = copyPtrs rd' wr' cc' dst' src'"
    by (intro ext)
  then show ?thesis
    unfolding assms(1-5) copyStruct_def by (simp only:)
qed

text \<open>
  Modelled from the spec: the segment's \<^verbatim>\<open>writePtr\<close>, which is not in \<^verbatim>\<open>struct.go\<close>.  It
  writes a deep copy of a pointer into a slot.  A null or invalid pointer is written as the
  zero word.  For a struct the depth of the copy context is checked against the configured
  limit \<open>lim\<close> before the descent (exceeding it is the failure \<open>NestingTooDeep\<close>); then a
  struct of the same size is allocated in the destination segment, the source is copied
  into it by \<^verbatim>\<open>copyStruct\<close> with the context received, and the slot receives the pointer to
  the new struct.  Pointers of other kinds are outside this core; the model stores their
  word.  The recursion through \<^verbatim>\<open>copyStruct\<close> terminates because \<^verbatim>\<open>copyStruct\<close> consults the
  writer only with the incremented context and the depth is bounded by \<open>lim\<close>.
\<close>

function writePtr :: "nat \<Rightarrow> nat \<Rightarrow> Pointer ptrWriter" where
  "writePtr lim cap cc st s a src =
     (if \<not> IsValid src then
        (case writeRawPointer st s a 0 of
           Panics x \<Rightarrow> Panics x
         | Returns st1 \<Rightarrow> Returns (st1, None))
      else
        (case src of
           StructPointer p \<Rightarrow>
             if depth cc \<ge> lim then Returns (st, Some NestingTooDeep)
             else
               (case NewStruct (alloc cap) st s (size' p) of
                  Panics x \<Rightarrow> Panics x
                | Returns (st1, n, Some err) \<Rightarrow> Returns (st1, Some err)
                | Returns (st1, n, None) \<Rightarrow>
                    (case copyStruct readPtr (\<lambda>cc' st' s' a' p'. writePtr lim cap cc' st' s' a' p')
                            cc n p st1 of
                       Panics x \<Rightarrow> Panics x
                     | Returns (st2, Some err) \<Rightarrow> Returns (st2, Some err)
                     | Returns (st2, None) \<Rightarrow>
                         (case writeRawPointer st2 s a (value' n a) of
                            Panics x \<Rightarrow> Panics x
                          | Returns st3 \<Rightarrow> Returns (st3, None))))
         | OtherPointer sg k \<Rightarrow>
             (case writeRawPointer st s a (of_nat k) of
                Panics x \<Rightarrow> Panics x
              | Returns st1 \<Rightarrow> Returns (st1, None))
         | NilPointer \<Rightarrow>
             (case writeRawPointer st s a 0 of
                Panics x \<Rightarrow> Panics x
              | Returns st1 \<Rightarrow> Returns (st1, None))))"
  by pat_completeness auto
termination
  by (relation "measure (\<lambda>(lim, cap, cc, st, s, a, src). lim - depth cc)") (auto simp: incDepth_def)

declare writePtr.simps [simp del]

text \<open>A chain of nested structs: \<open>nested st p k\<close> holds when the first pointer slot of the
  backed struct \<open>p\<close> decodes to a struct, whose first slot decodes to a struct, and so on
  \<open>k\<close> times.\<close>

fun nested :: "store \<Rightarrow> Struct \<Rightarrow> nat \<Rightarrow> bool" where
  "nested st p 0 = True"
| "nested st p (Suc k) =
     (backed st p \<and> 1 \<le> unat (PointerCount (size' p)) \<and>
      (case readPtr st (seg p) (slotAddress p 0) of
         Returns (StructPointer q, None) \<Rightarrow> nested st q k
       | _ \<Rightarrow> False))"

section \<open>Example stores\<close>

text \<open>A chain in segment 0: the struct at address 0 has no data and one pointer slot, which
  points to the struct of the same shape at address 8, which points to the one at address
  16; segment 1 holds a destination with one pointer slot.\<close>

definition chainStore :: store where
  "chainStore = (\<lambda>i. [])
     (0 := [0, 0, 0, 0, 0, 0, 1, 0,  0, 0, 0, 0, 0, 0, 1, 0,  0, 0, 0, 0, 0, 0, 1, 0,
            0, 0, 0, 0, 0, 0, 0, 0],
      1 := [255, 255, 255, 255, 255, 255, 255, 255])"

definition chainSrc :: Struct where
  "chainSrc = \<lparr>seg = Some 0, off = 0, size' = \<lparr>DataSize = 0, PointerCount = 1\<rparr>, flags = 0\<rparr>"

definition chainDst :: Struct where
  "chainDst = \<lparr>seg = Some 1, off = 0, size' = \<lparr>DataSize = 0, PointerCount = 1\<rparr>, flags = 0\<rparr>"

text \<open>The growth copy of the spec: a source with \<open>DataSize=8, PointerCount=1\<close> (a null
  pointer in its slot) in segment 0, and a destination with \<open>DataSize=16, PointerCount=2\<close>
  over stale bytes in segment 1.\<close>

definition growStore :: store where
  "growStore = (\<lambda>i. [])
     (0 := [1, 2, 3, 4, 5, 6, 7, 8,  0, 0, 0, 0, 0, 0, 0, 0],
      1 := replicate 32 255)"

definition growSrc :: Struct where
  "growSrc = \<lparr>seg = Some 0, off = 0, size' = \<lparr>DataSize = 8, PointerCount = 1\<rparr>, flags = 0\<rparr>"

definition growDst :: Struct where
  "growDst = \<lparr>seg = Some 1, off = 0, size' = \<lparr>DataSize = 16, PointerCount = 2\<rparr>, flags = 0\<rparr>"

text \<open>The same two structs over a source whose pointer slot holds a struct pointer with its
  target outside the segment.\<close>

definition abortStore :: store where
  "abortStore = (\<lambda>i. [])
     (0 := [1, 2, 3, 4, 5, 6, 7, 8,  0, 0, 0, 0, 1, 0, 0, 0],
      1 := [255, 255, 255, 255, 255, 255, 255, 255,  255, 255, 255, 255, 255, 255, 255, 255,
            255, 255, 255, 255, 255, 255, 255, 255,  255, 255, 255, 255, 255, 255, 255, 255])"

section \<open>Absent source and pointer reads\<close>

text \<open>
  C10.  \<^verbatim>\<open>copyStruct\<close> tests only \<^verbatim>\<open>dst.seg\<close> for nil.  With a backed destination and a source
  whose segment is nil (the invalid Struct), the first statement after the test calls
  \<^verbatim>\<open>src.seg.slice\<close> through the nil segment: the call panics with a nil dereference, whatever
  the pointer collaborators are, so this copy is not a defined operation.
\<close>

theorem copyStruct_nil_source_panics:
  "seg dst \<noteq> None \<Longrightarrow> seg src = None \<Longrightarrow>
   copyStruct rd wr cc dst src st = Panics RuntimeNilDereference"
  by (simp add: copyStruct_def slice_def)

theorem copyStruct_nil_source_panics_witness:
  "seg \<lparr>seg = Some 0, off = 0, size' = \<lparr>DataSize = 8, PointerCount = 0\<rparr>, flags = 0\<rparr> \<noteq> None
   \<and> seg zeroStruct = None
   \<and> copyStruct readPtr (writePtr 32 4194304) \<lparr>depth = 0\<rparr>
        \<lparr>seg = Some 0, off = 0, size' = \<lparr>DataSize = 8, PointerCount = 0\<rparr>, flags = 0\<rparr>
        zeroStruct (\<lambda>i. replicate 8 0) = Panics RuntimeNilDereference"
  using copyStruct_nil_source_panics
    [of "\<lparr>seg = Some 0, off = 0, size' = \<lparr>DataSize = 8, PointerCount = 0\<rparr>, flags = 0\<rparr>" zeroStruct
        readPtr "writePtr 32 4194304" "\<lparr>depth = 0\<rparr>" "\<lambda>i. replicate 8 0"]
  by (simp add: zeroStruct_def)




section \<open>Default fallback\<close>

text \<open>
  C6.  When \<open>p\<close> is invalid or not struct-typed, \<^verbatim>\<open>ToStructDefault\<close> with a nil template
  returns the zero-valued Struct and no error; with a template that decodes, the struct
  of the decoded pointer and no error; with a template whose decoding fails, that error
  (and the zero Struct beside it).
\<close>

theorem ToStructDefault_fallback:
  "\<not> IsValid p \<or> (\<forall>s. p \<noteq> StructPointer s) \<Longrightarrow>
   (def = None \<longrightarrow> ToStructDefault u p def = (zeroStruct, None)) \<and>
   (\<forall>bs defp. def = Some bs \<and> u bs = (defp, None) \<longrightarrow>
      ToStructDefault u p def = (ToStruct defp, None)) \<and>
   (\<forall>bs defp err. def = Some bs \<and> u bs = (defp, Some err) \<longrightarrow>
      ToStructDefault u p def = (zeroStruct, Some err))"
  by (cases p) (auto simp: ToStructDefault_def fallback_def)

theorem ToStructDefault_fallback_witness:
  "ToStructDefault
     (\<lambda>bs. if bs = [] then (NilPointer, Some MalformedDefault)
           else (StructPointer \<lparr>seg = Some 1, off = 8, size' = \<lparr>DataSize = 8, PointerCount = 0\<rparr>, flags = 0\<rparr>, None))
     NilPointer None = (zeroStruct, None) \<and>
   ToStructDefault
     (\<lambda>bs. if bs = [] then (NilPointer, Some MalformedDefault)
           else (StructPointer \<lparr>seg = Some 1, off = 8, size' = \<lparr>DataSize = 8, PointerCount = 0\<rparr>, flags = 0\<rparr>, None))
     (OtherPointer (Some 0) 5) (Some [0]) =
       (\<lparr>seg = Some 1, off = 8, size' = \<lparr>DataSize = 8, PointerCount = 0\<rparr>, flags = 0\<rparr>, None) \<and>
   ToStructDefault
     (\<lambda>bs. if bs = [] then (NilPointer, Some MalformedDefault)
           else (StructPointer \<lparr>seg = Some 1, off = 8, size' = \<lparr>DataSize = 8, PointerCount = 0\<rparr>, flags = 0\<rparr>, None))
     NilPointer (Some []) = (zeroStruct, Some MalformedDefault)"
proof -
  let ?u = "\<lambda>bs :: byte list. if bs = [] then (NilPointer, Some MalformedDefault)
           else (StructPointer \<lparr>seg = Some 1, off = 8, size' = \<lparr>DataSize = 8, PointerCount = 0\<rparr>, flags = 0\<rparr>, None)"
  have inv: "\<not> IsValid NilPointer \<or> (\<forall>s. NilPointer \<noteq> StructPointer s)"
    by (simp add: IsValid_def)
  have oth: "\<not> IsValid (OtherPointer (Some 0) 5) \<or> (\<forall>s. OtherPointer (Some 0) 5 \<noteq> StructPointer s)"
    by simp
  show ?thesis
    using ToStructDefault_fallback [OF inv, of None ?u]
      ToStructDefault_fallback [OF oth, of "Some [0]" ?u]
      ToStructDefault_fallback [OF inv, of "Some []" ?u]
    by (simp add: ToStruct_def IsValid_def Segment_def)
qed

section \<open>Allocation of a new struct\<close>

lemma pad_and: "(x::32 word) AND NOT (8 - 1) = push_bit 3 (drop_bit 3 x)"
proof -
  have *: "(8 - 1 :: 32 word) = mask 3" by (simp add: mask_eq_exp_minus_1)
  show ?thesis unfolding *
    by (rule bit_word_eqI) (auto simp: bit_simps not_less)
qed

lemma unat_pad: "unat (push_bit 3 (drop_bit 3 (x::32 word))) = 8 * (unat x div 8)"
proof -
  have "unat x < 2 ^ 32" using unsigned_less [of x] by simp
  then have "unat x div 8 * 8 < 4294967296" by simp
  then show ?thesis
    by (simp add: push_bit_eq_mult drop_bit_eq_div unat_word_ariths unat_div)
qed

lemma unat_add7: "unat (sz::32 word) \<le> 4294967288 \<Longrightarrow> unat (sz + 7) = unat sz + 7"
  by (simp add: unat_word_ariths)

lemma padToWord_unat:
  assumes "unat sz \<le> 4294967288"
  shows "unat (padToWord sz) = 8 * ((unat sz + 7) div 8)"
proof -
  have "padToWord sz = push_bit 3 (drop_bit 3 (sz + (8 - 1)))"
    unfolding padToWord_def wordSize_def pad_and ..
  then have "padToWord sz = push_bit 3 (drop_bit 3 (sz + 7))" by simp
  then show ?thesis using assms by (simp only: unat_pad unat_add7)
qed

lemma isValid_unat: "isValid sz \<longleftrightarrow> unat (DataSize sz) \<le> 524280"
  by (simp add: isValid_def wordSize_def word_le_nat_alt)

lemma totalSize_padded:
  assumes "isValid sz"
  shows "unat (totalSize (sz\<lparr>DataSize := padToWord (DataSize sz)\<rparr>))
           = roundedDataSize sz + 8 * unat (PointerCount sz)"
proof -
  from assms have d: "unat (DataSize sz) \<le> 524280" by (simp add: isValid_unat)
  then have p: "unat (padToWord (DataSize sz)) = roundedDataSize sz"
    by (simp add: padToWord_unat roundedDataSize_def)
  have r: "roundedDataSize sz \<le> 524280" using d by (simp add: roundedDataSize_def)
  have c: "unat (PointerCount sz) < 65536" using unsigned_less [of "PointerCount sz"] by simp
  have u: "unat (ucast (PointerCount sz) :: 32 word) = unat (PointerCount sz)"
    using c by (simp add: unsigned_ucast_eq take_bit_nat_eq_self)
  show ?thesis using p r c u
    by (simp add: totalSize_def wordSize_def unat_word_ariths)
qed

text \<open>
  C8 (as amended).  An invalid size gives \<^verbatim>\<open>errObjectSize\<close> with the store untouched and the
  allocator not consulted.  For a valid size the allocator is asked for \<open>DataSize\<close> rounded
  up to a multiple of 8 plus \<open>8 * PointerCount\<close> bytes (a sum below \<open>2^32\<close>); when
  the allocator succeeds, the new Struct has the rounded \<open>DataSize\<close>, the given
  \<open>PointerCount\<close> and the segment and address the allocator chose; when the allocator
  fails, its error is returned beside the zero Struct.
\<close>

theorem NewStruct_result:
  "(\<not> isValid sz \<longrightarrow> NewStruct al st s sz = Returns (st, zeroStruct, Some errObjectSize)) \<and>
   (isValid sz \<longrightarrow>
      roundedDataSize sz + 8 * unat (PointerCount sz) < 2 ^ 32 \<and>
      NewStruct al st s sz =
        (case al st s (of_nat (roundedDataSize sz + 8 * unat (PointerCount sz))) of
           Panics x \<Rightarrow> Panics x
         | Returns (st1, seg1, addr, Some err) \<Rightarrow> Returns (st1, zeroStruct, Some err)
         | Returns (st1, seg1, addr, None) \<Rightarrow>
             Returns (st1, \<lparr>seg = seg1, off = addr,
               size' = \<lparr>DataSize = of_nat (roundedDataSize sz), PointerCount = PointerCount sz\<rparr>,
               flags = 0\<rparr>, None)))"
proof (cases "isValid sz")
  case False
  then show ?thesis by (simp add: NewStruct_def)
next
  case True
  let ?sz1 = "sz\<lparr>DataSize := padToWord (DataSize sz)\<rparr>"
  from True have d: "unat (DataSize sz) \<le> 524280" by (simp add: isValid_unat)
  have "unat (padToWord (DataSize sz)) = roundedDataSize sz"
    using d by (simp add: padToWord_unat roundedDataSize_def)
  then have 1: "padToWord (DataSize sz) = of_nat (roundedDataSize sz)"
    by (metis of_nat_unat ucast_id)
  have "unat (totalSize ?sz1) = roundedDataSize sz + 8 * unat (PointerCount sz)"
    using True by (rule totalSize_padded)
  then have 2: "totalSize ?sz1 = of_nat (roundedDataSize sz + 8 * unat (PointerCount sz))"
    by (metis of_nat_unat ucast_id)
  have "unat (PointerCount sz) < 65536" using unsigned_less [of "PointerCount sz"] by simp
  with d have 3: "roundedDataSize sz + 8 * unat (PointerCount sz) < 2 ^ 32"
    by (simp add: roundedDataSize_def)
  have 4: "NewStruct al st s sz =
           (case al st s T of
              Panics x \<Rightarrow> Panics x
            | Returns (st1, seg1, addr, Some err) \<Rightarrow> Returns (st1, zeroStruct, Some err)
            | Returns (st1, seg1, addr, None) \<Rightarrow>
                Returns (st1, \<lparr>seg = seg1, off = addr,
                  size' = \<lparr>DataSize = D, PointerCount = PointerCount sz\<rparr>,
                  flags = 0\<rparr>, None))"
    if "T = totalSize ?sz1" and "D = padToWord (DataSize sz)" for T D
    using True that
    by (cases sz) (auto simp: NewStruct_def Let_def split: outcome.splits option.splits)
  from True 3 4 [OF 2 [symmetric] 1 [symmetric]] show ?thesis by simp
qed

theorem NewStruct_result_witness:
  "isValid \<lparr>DataSize = 5, PointerCount = 2\<rparr> \<and>
   NewStruct (alloc 64) (\<lambda>i. []) (Some 0) \<lparr>DataSize = 5, PointerCount = 2\<rparr>
     = Returns ((\<lambda>i. [])(0 := replicate 24 0),
         \<lparr>seg = Some 0, off = 0, size' = \<lparr>DataSize = 8, PointerCount = 2\<rparr>, flags = 0\<rparr>, None) \<and>
   \<not> isValid \<lparr>DataSize = 524281, PointerCount = 0\<rparr> \<and>
   NewStruct (alloc 64) (\<lambda>i. []) (Some 0) \<lparr>DataSize = 524281, PointerCount = 0\<rparr>
     = Returns (\<lambda>i. [], zeroStruct, Some errObjectSize)"
proof -
  have v: "isValid \<lparr>DataSize = 5, PointerCount = 2\<rparr>"
    by (simp add: isValid_def wordSize_def)
  have nv: "\<not> isValid \<lparr>DataSize = 524281, PointerCount = 0\<rparr>"
    by (simp add: isValid_def wordSize_def)
  show ?thesis
    using v nv
      NewStruct_result [of "\<lparr>DataSize = 5, PointerCount = 2\<rparr>" "alloc 64" "\<lambda>i. []" "Some 0"]
      NewStruct_result [of "\<lparr>DataSize = 524281, PointerCount = 0\<rparr>" "alloc 64" "\<lambda>i. []" "Some 0"]
    by (simp add: roundedDataSize_def alloc_def)
qed

text \<open>
  The claim as stated (every valid size yields a Struct with the rounded \<open>DataSize\<close>) fails
  when the allocator has no room: the size \<open>(8, 0)\<close> is valid, and \<^verbatim>\<open>NewStruct\<close> returns the
  allocator's error with the zero Struct, whose \<open>DataSize\<close> is 0.
\<close>

theorem NewStruct_alloc_failure_counterexample:
  "isValid \<lparr>DataSize = 8, PointerCount = 0\<rparr> \<and>
   NewStruct (alloc 0) (\<lambda>i. []) (Some 0) \<lparr>DataSize = 8, PointerCount = 0\<rparr>
     = Returns (\<lambda>i. [], zeroStruct, Some AllocError) \<and>
   DataSize (size' zeroStruct) \<noteq> 8"
  by (simp add: isValid_def wordSize_def NewStruct_def alloc_def padToWord_def totalSize_def
      zeroStruct_def)

section \<open>Byte-level access to a segment\<close>

lemma length_le_bytes: "length (le_bytes n v) = n"
  by (induction n arbitrary: v) simp_all

lemma le_word_le_bytes: "(le_word (le_bytes n v) :: 'a::len word) = take_bit (8 * n) (v :: 'a word)"
proof (induction n arbitrary: v)
  case 0
  show ?case by simp
next
  case (Suc n)
  show ?case
    by (rule bit_word_eqI) (auto simp: Suc bit_simps not_less)
qed

lemma unat_add_small:
  "unat (a :: 32 word) + n \<le> L \<Longrightarrow> L < 2 ^ 32 \<Longrightarrow> unat (a + of_nat n) = unat a + n"
  by (simp add: unat_word_ariths unat_of_nat)

lemma slice_in_bounds:
  assumes "unat a + n \<le> length (st i)" and "length (st i) < 2 ^ 32"
  shows "slice st (Some i) a (of_nat n) = Returns (take n (drop (unat a) (st i)))"
  using assms unat_add_small [of a n "length (st i)"]
  by (simp add: slice_def addSize_def)

lemma take_drop_put:
  "lo + length bs \<le> length d \<Longrightarrow> take (length bs) (drop lo (take lo d @ bs @ drop (lo + length bs) d)) = bs"
  by simp

lemma putBytes_same: "putBytes st i lo bs i = take lo (st i) @ bs @ drop (lo + length bs) (st i)"
  by (simp add: putBytes_def)

lemma putBytes_other: "k \<noteq> i \<Longrightarrow> putBytes st i lo bs k = st k"
  by (simp add: putBytes_def)

lemma length_putBytes: "lo + length bs \<le> length (st i) \<Longrightarrow> length (putBytes st i lo bs i) = length (st i)"
  by (simp add: putBytes_def)

lemma write_then_read:
  assumes "unat a + n \<le> length (st i)" and "length (st i) < 2 ^ 32"
  shows "writeUint n st (Some i) a v = Returns (putBytes st i (unat a) (le_bytes n v))"
    and "readUint n (putBytes st i (unat a) (le_bytes n v)) (Some i) a = Returns (take_bit (8 * n) v)"
proof -
  show "writeUint n st (Some i) a v = Returns (putBytes st i (unat a) (le_bytes n v))"
    using assms by (simp add: writeUint_def slice_in_bounds)
  let ?st = "putBytes st i (unat a) (le_bytes n v)"
  have len: "length (?st i) = length (st i)"
    using assms by (simp add: length_putBytes length_le_bytes)
  have "slice ?st (Some i) a (of_nat n) = Returns (take n (drop (unat a) (?st i)))"
    using assms len by (simp add: slice_in_bounds)
  moreover have "take n (drop (unat a) (?st i)) = le_bytes n v"
    using assms take_drop_put [of "unat a" "le_bytes n v" "st i"]
    by (simp add: putBytes_same length_le_bytes)
  ultimately show "readUint n ?st (Some i) a = Returns (take_bit (8 * n) v)"
    by (simp add: readUint_def le_word_le_bytes)
qed

lemma dataAddress_in_range:
  assumes "backed st p" and "unat o' + unat sz \<le> unat (DataSize (size' p))"
  shows "dataAddress p o' sz = (off p + o', True)"
    and "unat (off p + o') = unat (off p) + unat o'"
    and "unat (off p + o') + unat sz \<le> length (st (the (seg p)))"
proof -
  from assms(1) obtain i where i: "seg p = Some i"
    and b: "unat (off p) + unat (DataSize (size' p)) + 8 * unat (PointerCount (size' p)) \<le> length (st i)"
    and l: "length (st i) < 2 ^ 32"
    by (auto simp: backed_def split: option.splits)
  have d: "unat (DataSize (size' p)) < 2 ^ 32" using unsigned_less [of "DataSize (size' p)"] by simp
  have "unat (o' + sz) = unat o' + unat sz"
    using assms(2) d by (simp add: unat_word_ariths)
  then have "o' + sz \<le> DataSize (size' p)"
    using assms(2) by (simp add: word_le_nat_alt)
  then show "dataAddress p o' sz = (off p + o', True)"
    using i by (simp add: dataAddress_def addOffset_def not_less)
  show s: "unat (off p + o') = unat (off p) + unat o'"
    using assms(2) b l by (simp add: unat_word_ariths)
  show "unat (off p + o') + unat sz \<le> length (st (the (seg p)))"
    using s assms(2) b i by simp
qed

lemma set_then_get_bytes:
  assumes "backed st p" and "unat o' + n \<le> unat (DataSize (size' p))"
  shows "dataAddress p o' (of_nat n) = (off p + o', True)"
    and "\<exists>st1. writeUint n st (seg p) (off p + o') v = Returns st1 \<and> backed st1 p \<and>
           dataAddress p o' (of_nat n) = (off p + o', True) \<and>
           readUint n st1 (seg p) (off p + o') = Returns (take_bit (8 * n) v)"
proof -
  from assms(1) obtain i where i: "seg p = Some i" and l: "length (st i) < 2 ^ 32"
    by (auto simp: backed_def split: option.splits)
  have "unat (DataSize (size' p)) < 2 ^ 32" using unsigned_less [of "DataSize (size' p)"] by simp
  then have "n < 2 ^ 32" using assms(2) by simp
  then have n: "unat (of_nat n :: 32 word) = n" by (simp add: unat_of_nat)
  note da = dataAddress_in_range [OF assms(1), of o' "of_nat n", unfolded n, OF assms(2)]
  show 1: "dataAddress p o' (of_nat n) = (off p + o', True)" by (rule da(1))
  let ?a = "off p + o'"
  let ?st1 = "putBytes st i (unat ?a) (le_bytes n v)"
  have bnd: "unat ?a + n \<le> length (st i)" using da(3) i by simp
  note wr = write_then_read [of "off p + o'" n st i v, OF bnd l]
  have "length (?st1 i) = length (st i)"
    using bnd by (simp add: length_putBytes length_le_bytes)
  then have "backed ?st1 p" using assms(1) i by (simp add: backed_def)
  with wr 1 i show "\<exists>st1. writeUint n st (seg p) (off p + o') v = Returns st1 \<and> backed st1 p \<and>
           dataAddress p o' (of_nat n) = (off p + o', True) \<and>
           readUint n st1 (seg p) (off p + o') = Returns (take_bit (8 * n) v)"
    by auto
qed


section \<open>Scalar round trip\<close>

text \<open>
  C4.  On a backed struct, for each width of 8, 16, 32 and 64 bits and every offset with
  \<open>off + width/8 \<le> DataSize\<close>, the write returns (it does not panic) and the read at the
  same offset of the written store returns the value written.
\<close>

theorem set_then_get:
  assumes "backed st p"
  shows "(unat o' + 1 \<le> unat (DataSize (size' p)) \<longrightarrow>
            (\<exists>st1. SetUint8 st p o' v8 = Returns st1 \<and> Uint8 st1 p o' = Returns v8)) \<and>
         (unat o' + 2 \<le> unat (DataSize (size' p)) \<longrightarrow>
            (\<exists>st1. SetUint16 st p o' v16 = Returns st1 \<and> Uint16 st1 p o' = Returns v16)) \<and>
         (unat o' + 4 \<le> unat (DataSize (size' p)) \<longrightarrow>
            (\<exists>st1. SetUint32 st p o' v32 = Returns st1 \<and> Uint32 st1 p o' = Returns v32)) \<and>
         (unat o' + 8 \<le> unat (DataSize (size' p)) \<longrightarrow>
            (\<exists>st1. SetUint64 st p o' v64 = Returns st1 \<and> Uint64 st1 p o' = Returns v64))"
proof (intro conjI impI)
  assume "unat o' + 1 \<le> unat (DataSize (size' p))"
  from set_then_get_bytes(2) [OF assms this, of v8]
  show "\<exists>st1. SetUint8 st p o' v8 = Returns st1 \<and> Uint8 st1 p o' = Returns v8"
    by (auto simp: SetUint8_def Uint8_def writeUint8_def readUint8_def take_bit_word_eq_self)
next
  assume "unat o' + 2 \<le> unat (DataSize (size' p))"
  from set_then_get_bytes(2) [OF assms this, of v16]
  show "\<exists>st1. SetUint16 st p o' v16 = Returns st1 \<and> Uint16 st1 p o' = Returns v16"
    by (auto simp: SetUint16_def Uint16_def writeUint16_def readUint16_def take_bit_word_eq_self)
next
  assume "unat o' + 4 \<le> unat (DataSize (size' p))"
  from set_then_get_bytes(2) [OF assms this, of v32]
  show "\<exists>st1. SetUint32 st p o' v32 = Returns st1 \<and> Uint32 st1 p o' = Returns v32"
    by (auto simp: SetUint32_def Uint32_def writeUint32_def readUint32_def take_bit_word_eq_self)
next
  assume "unat o' + 8 \<le> unat (DataSize (size' p))"
  from set_then_get_bytes(2) [OF assms this, of v64]
  show "\<exists>st1. SetUint64 st p o' v64 = Returns st1 \<and> Uint64 st1 p o' = Returns v64"
    by (auto simp: SetUint64_def Uint64_def writeUint64_def readUint64_def take_bit_word_eq_self)
qed

theorem set_then_get_witness:
  "backed (\<lambda>i. replicate 16 0) \<lparr>seg = Some 0, off = 8, size' = \<lparr>DataSize = 8, PointerCount = 0\<rparr>, flags = 0\<rparr> \<and>
   (\<exists>st1. SetUint8 (\<lambda>i. replicate 16 0)
            \<lparr>seg = Some 0, off = 8, size' = \<lparr>DataSize = 8, PointerCount = 0\<rparr>, flags = 0\<rparr> 7 171 = Returns st1 \<and>
          Uint8 st1 \<lparr>seg = Some 0, off = 8, size' = \<lparr>DataSize = 8, PointerCount = 0\<rparr>, flags = 0\<rparr> 7 = Returns 171) \<and>
   (\<exists>st1. SetUint64 (\<lambda>i. replicate 16 0)
            \<lparr>seg = Some 0, off = 8, size' = \<lparr>DataSize = 8, PointerCount = 0\<rparr>, flags = 0\<rparr> 0 81985529216486895 = Returns st1 \<and>
          Uint64 st1 \<lparr>seg = Some 0, off = 8, size' = \<lparr>DataSize = 8, PointerCount = 0\<rparr>, flags = 0\<rparr> 0
            = Returns 81985529216486895)"
proof -
  let ?st = "\<lambda>i :: nat. replicate 16 (0 :: byte)"
  let ?p = "\<lparr>seg = Some 0, off = 8, size' = \<lparr>DataSize = 8, PointerCount = 0\<rparr>, flags = 0\<rparr>"
  have b: "backed ?st ?p"
    by (simp add: backed_def isValid_def wordSize_def)
  show ?thesis
    using b set_then_get [OF b, of 7 171] set_then_get [OF b, of 0 _ _ _ 81985529216486895]
    by simp
qed

section \<open>Bit writes\<close>

lemma readUint8_in_bounds:
  assumes "unat a < length (st i)" and "length (st i) < 2 ^ 32"
  shows "readUint8 st (Some i) a = Returns (st i ! unat a)"
proof -
  have "slice st (Some i) a (of_nat 1) = Returns (take 1 (drop (unat a) (st i)))"
    using assms by (intro slice_in_bounds) simp_all
  moreover have "take 1 (drop (unat a) (st i)) = [st i ! unat a]"
    using assms(1) by (simp add: take_Suc_conv_app_nth Cons_nth_drop_Suc [symmetric])
  ultimately show ?thesis by (simp add: readUint8_def readUint_def)
qed

lemma writeUint8_in_bounds:
  assumes "unat a < length (st i)" and "length (st i) < 2 ^ 32"
  shows "writeUint8 st (Some i) a b = Returns (st(i := (st i)[unat a := b]))"
proof -
  have "writeUint 1 st (Some i) a b = Returns (putBytes st i (unat a) (le_bytes 1 b))"
    using assms by (intro write_then_read(1)) simp_all
  moreover have "putBytes st i (unat a) (le_bytes 1 b) = st(i := (st i)[unat a := b])"
    using assms(1) by (simp add: putBytes_def upd_conv_take_nth_drop)
  ultimately show ?thesis by (simp add: writeUint8_def)
qed

lemma unat_mask': "unat (n mod 8 :: 32 word) = unat n mod 8"
  by (simp add: unat_mod)

lemma bit_mask': "bit (mask' n) m \<longleftrightarrow> m = unat n mod 8"
proof -
  have "unat n mod 8 < 8" by simp
  then show ?thesis
    by (auto simp: mask'_def unat_mask' bit_simps)
qed

lemma and_mask'_nonzero: "(b AND mask' n \<noteq> 0) \<longleftrightarrow> bit b (unat n mod 8)"
proof (cases "bit b (unat n mod 8)")
  case True
  then have "bit (b AND mask' n) (unat n mod 8)" by (simp add: bit_simps bit_mask')
  then have "b AND mask' n \<noteq> 0" by auto
  with True show ?thesis by simp
next
  case False
  then have "b AND mask' n = 0"
    by (intro bit_word_eqI) (auto simp: bit_simps bit_mask')
  with False show ?thesis by simp
qed

lemma bit_address:
  assumes "backed st p" and "unat n < 8 * unat (DataSize (size' p))"
  shows "bitInData p n"
    and "unat (addOffset (off p) (offset n)) = unat (off p) + unat n div 8"
    and "unat (off p) + unat n div 8 < length (st (the (seg p)))"
proof -
  from assms(1) obtain i where i: "seg p = Some i" and v: "isValid (size' p)"
    by (auto simp: backed_def split: option.splits)
  from v have d: "unat (DataSize (size' p)) \<le> 524280" by (simp add: isValid_unat)
  then have "unat (DataSize (size' p) * 8) = 8 * unat (DataSize (size' p))"
    by (simp add: unat_word_ariths)
  then show "bitInData p n"
    using assms(2) i by (simp add: bitInData_def word_less_nat_alt)
  have o: "unat (offset n) = unat n div 8" by (simp add: offset_def unat_div)
  then have "unat (offset n) + unat (1 :: 32 word) \<le> unat (DataSize (size' p))"
    using assms(2) by simp
  note da = dataAddress_in_range [OF assms(1) this]
  from da(2) o show "unat (addOffset (off p) (offset n)) = unat (off p) + unat n div 8"
    by (simp add: addOffset_def)
  from da(2,3) o show "unat (off p) + unat n div 8 < length (st (the (seg p)))"
    by simp
qed

lemma SetBit_store:
  assumes "backed st p" and "unat n < 8 * unat (DataSize (size' p))" and "seg p = Some i"
  shows "SetBit st p n v =
           Returns (st(i := (st i)[unat (off p) + unat n div 8 :=
             (if v then st i ! (unat (off p) + unat n div 8) OR mask' n
              else st i ! (unat (off p) + unat n div 8) AND NOT (mask' n))]))"
proof -
  from assms(1,3) have l: "length (st i) < 2 ^ 32"
    by (simp add: backed_def)
  note ba = bit_address [OF assms(1,2)]
  let ?a = "addOffset (off p) (offset n)"
  have lt: "unat ?a < length (st i)" using ba(2,3) assms(3) by simp
  show ?thesis
    using ba(1) assms(3)
    by (simp add: SetBit_def Let_def readUint8_in_bounds [of ?a st i, OF lt l]
        writeUint8_in_bounds [of ?a st i, OF lt l] ba(2))
qed


text \<open>
  C9.  On a backed struct and a bit offset \<open>n\<close> inside the data section, \<^verbatim>\<open>SetBit\<close> returns
  a store in which every other segment, the length of the segment and every byte other
  than the one at \<open>off + n div 8\<close> are unchanged, every bit of that byte other than bit
  \<open>n mod 8\<close> is unchanged, bit \<open>n mod 8\<close> is \<open>v\<close>, and \<^verbatim>\<open>Bit\<close> then returns \<open>v\<close>.
\<close>

theorem SetBit_frame:
  assumes "backed st p" and "unat n < 8 * unat (DataSize (size' p))"
  shows "\<exists>st1 i. seg p = Some i \<and> SetBit st p n v = Returns st1 \<and>
           (\<forall>k. k \<noteq> i \<longrightarrow> st1 k = st k) \<and>
           length (st1 i) = length (st i) \<and>
           (\<forall>a. a \<noteq> unat (off p) + unat n div 8 \<longrightarrow> st1 i ! a = st i ! a) \<and>
           (\<forall>m. m \<noteq> unat n mod 8 \<longrightarrow>
              bit (st1 i ! (unat (off p) + unat n div 8)) m = bit (st i ! (unat (off p) + unat n div 8)) m) \<and>
           bit (st1 i ! (unat (off p) + unat n div 8)) (unat n mod 8) = v \<and>
           Bit st1 p n = Returns v"
proof -
  from assms(1) obtain i where i: "seg p = Some i" and l: "length (st i) < 2 ^ 32"
    by (auto simp: backed_def split: option.splits)
  let ?k = "unat (off p) + unat n div 8"
  let ?b1 = "if v then st i ! ?k OR mask' n else st i ! ?k AND NOT (mask' n)"
  let ?st1 = "st(i := (st i)[?k := ?b1])"
  note ba = bit_address [OF assms]
  have k: "?k < length (st i)" using ba(3) i by simp
  have set: "SetBit st p n v = Returns ?st1"
    by (rule SetBit_store [OF assms i])
  have b1: "?st1 i ! ?k = ?b1" using k by simp
  have other: "\<forall>m. m \<noteq> unat n mod 8 \<longrightarrow> bit (?st1 i ! ?k) m = bit (st i ! ?k) m"
    unfolding b1 by (auto simp: bit_simps bit_mask' dest: bit_imp_le_length)
  have "unat n mod 8 < 8" by simp
  then have this_bit: "bit (?st1 i ! ?k) (unat n mod 8) = v"
    unfolding b1 by (auto simp: bit_simps bit_mask' dest: bit_imp_le_length)
  have backed1: "backed ?st1 p" using assms(1) i by (simp add: backed_def)
  have lt1: "unat (addOffset (off p) (offset n)) < length (?st1 i)" using ba(2) k by simp
  have l1: "length (?st1 i) < 2 ^ 32" using l by simp
  have "Bit ?st1 p n = Returns (?st1 i ! ?k AND mask' n \<noteq> 0)"
    using ba(1) i readUint8_in_bounds [of "addOffset (off p) (offset n)" ?st1 i, OF lt1 l1]
    by (simp add: Bit_def Let_def ba(2))
  then have get: "Bit ?st1 p n = Returns v"
    using this_bit by (simp only: and_mask'_nonzero)
  have frame: "\<forall>a. a \<noteq> ?k \<longrightarrow> ?st1 i ! a = st i ! a" by simp
  have segs: "\<forall>j. j \<noteq> i \<longrightarrow> ?st1 j = st j" by simp
  have len: "length (?st1 i) = length (st i)" by simp
  from i set segs len frame other this_bit get show ?thesis by blast
qed

theorem SetBit_frame_witness:
  "backed (\<lambda>i. replicate 8 240) \<lparr>seg = Some 0, off = 0, size' = \<lparr>DataSize = 8, PointerCount = 0\<rparr>, flags = 0\<rparr> \<and>
   (\<exists>st1. SetBit (\<lambda>i. replicate 8 240)
            \<lparr>seg = Some 0, off = 0, size' = \<lparr>DataSize = 8, PointerCount = 0\<rparr>, flags = 0\<rparr> 11 True = Returns st1 \<and>
          bit (st1 0 ! 1) 3 \<and> bit (st1 0 ! 1) 2 = bit (240 :: byte) 2 \<and> st1 0 ! 0 = 240 \<and>
          Bit st1 \<lparr>seg = Some 0, off = 0, size' = \<lparr>DataSize = 8, PointerCount = 0\<rparr>, flags = 0\<rparr> 11 = Returns True)"
proof -
  let ?st = "\<lambda>i :: nat. replicate 8 (240 :: byte)"
  let ?p = "\<lparr>seg = Some 0, off = 0, size' = \<lparr>DataSize = 8, PointerCount = 0\<rparr>, flags = 0\<rparr>"
  have b: "backed ?st ?p"
    by (simp add: backed_def isValid_def wordSize_def)
  have r: "unat (11 :: BitOffset) < 8 * unat (DataSize (size' ?p))" by simp
  from SetBit_frame [OF b r, of True] obtain st1 where
    s: "SetBit ?st ?p 11 True = Returns st1"
    and f: "\<forall>a. a \<noteq> unat (off ?p) + unat (11 :: BitOffset) div 8 \<longrightarrow> st1 0 ! a = ?st 0 ! a"
    and o: "\<forall>m. m \<noteq> unat (11 :: BitOffset) mod 8 \<longrightarrow>
              bit (st1 0 ! (unat (off ?p) + unat (11 :: BitOffset) div 8)) m
                = bit (?st 0 ! (unat (off ?p) + unat (11 :: BitOffset) div 8)) m"
    and t: "bit (st1 0 ! (unat (off ?p) + unat (11 :: BitOffset) div 8)) (unat (11 :: BitOffset) mod 8) = True"
    and g: "Bit st1 ?p 11 = Returns True"
    by auto
  from f have f0: "st1 0 ! 0 = 240" by simp
  from o have o2: "bit (st1 0 ! 1) 2 = bit (240 :: byte) 2" by simp
  from t have t3: "bit (st1 0 ! 1) 3" by simp
  from b s f0 o2 t3 g show ?thesis by blast
qed

section \<open>Offsets that wrap around\<close>

text \<open>
  Where the sum \<open>off + sz\<close> stays below \<open>2^32\<close>, an out-of-range or unbacked read returns
  zero and an out-of-range or unbacked write panics with \<^verbatim>\<open>errOutOfBounds\<close>; bit and pointer
  accesses are guarded for every offset and index.
\<close>

lemma dataAddress_out_of_range:
  assumes "seg p = None \<or> (unat (DataSize (size' p)) < unat o' + unat sz \<and> unat o' + unat sz < 2 ^ 32)"
  shows "dataAddress p o' sz = (0, False)"
proof (cases "seg p = None")
  case True
  then show ?thesis by (simp add: dataAddress_def)
next
  case False
  with assms have "unat (o' + sz) = unat o' + unat sz" and "unat (DataSize (size' p)) < unat o' + unat sz"
    by (simp_all add: unat_word_ariths)
  then have "DataSize (size' p) < o' + sz" by (simp add: word_less_nat_alt)
  then show ?thesis by (simp add: dataAddress_def)
qed

lemma bitInData_out_of_range:
  assumes "seg p = None \<or> 8 * unat (DataSize (size' p)) \<le> unat n"
  shows "\<not> bitInData p n"
proof (cases "seg p = None")
  case True
  then show ?thesis by (simp add: bitInData_def)
next
  case False
  have "unat (DataSize (size' p) * 8) \<le> 8 * unat (DataSize (size' p))"
    by (simp add: unat_word_ariths)
  with False assms have "unat (DataSize (size' p) * 8) \<le> unat n" by auto
  then show ?thesis by (simp add: bitInData_def word_less_nat_alt)
qed

lemma Bit_out_of_range:
  "seg p = None \<or> 8 * unat (DataSize (size' p)) \<le> unat n \<Longrightarrow> Bit st p n = Returns False"
  by (simp add: Bit_def bitInData_out_of_range)

lemma SetBit_out_of_range:
  "seg p = None \<or> 8 * unat (DataSize (size' p)) \<le> unat n \<Longrightarrow>
   SetBit st p n v = Panics (PanicError errOutOfBounds)"
  by (simp add: SetBit_def bitInData_out_of_range)

lemma SetPointer_out_of_range:
  "seg p = None \<or> PointerCount (size' p) \<le> i \<Longrightarrow>
   SetPointer wr st p i src = Panics (PanicError errOutOfBounds)"
  by (simp add: SetPointer_def)

lemma Uint_out_of_range:
  assumes "seg p = None \<or> unat o' \<le> 4294967287"
  shows "seg p = None \<or> unat (DataSize (size' p)) < unat o' + 1 \<Longrightarrow> Uint8 st p o' = Returns 0"
    and "seg p = None \<or> unat (DataSize (size' p)) < unat o' + 2 \<Longrightarrow> Uint16 st p o' = Returns 0"
    and "seg p = None \<or> unat (DataSize (size' p)) < unat o' + 4 \<Longrightarrow> Uint32 st p o' = Returns 0"
    and "seg p = None \<or> unat (DataSize (size' p)) < unat o' + 8 \<Longrightarrow> Uint64 st p o' = Returns 0"
  using assms
  by (auto simp: Uint8_def Uint16_def Uint32_def Uint64_def
      dataAddress_out_of_range [of p o' 1] dataAddress_out_of_range [of p o' 2]
      dataAddress_out_of_range [of p o' 4] dataAddress_out_of_range [of p o' 8])

lemma SetUint_out_of_range:
  assumes "seg p = None \<or> unat o' \<le> 4294967287"
  shows "seg p = None \<or> unat (DataSize (size' p)) < unat o' + 1 \<Longrightarrow>
           SetUint8 st p o' v8 = Panics (PanicError errOutOfBounds)"
    and "seg p = None \<or> unat (DataSize (size' p)) < unat o' + 2 \<Longrightarrow>
           SetUint16 st p o' v16 = Panics (PanicError errOutOfBounds)"
    and "seg p = None \<or> unat (DataSize (size' p)) < unat o' + 4 \<Longrightarrow>
           SetUint32 st p o' v32 = Panics (PanicError errOutOfBounds)"
    and "seg p = None \<or> unat (DataSize (size' p)) < unat o' + 8 \<Longrightarrow>
           SetUint64 st p o' v64 = Panics (PanicError errOutOfBounds)"
  using assms
  by (auto simp: SetUint8_def SetUint16_def SetUint32_def SetUint64_def
      dataAddress_out_of_range [of p o' 1] dataAddress_out_of_range [of p o' 2]
      dataAddress_out_of_range [of p o' 4] dataAddress_out_of_range [of p o' 8])

text \<open>
  \<^verbatim>\<open>dataAddress\<close> tests \<^verbatim>\<open>Size(off)+sz > p.size.DataSize\<close> in 32-bit arithmetic.  For an
  offset within \<open>sz\<close> of \<open>2^32\<close> the sum wraps to a small number, the test passes, and
  \<^verbatim>\<open>addOffset\<close> wraps as well: the access lands just below the struct.
\<close>

lemma dataAddress_wraps:
  "dataAddress \<lparr>seg = Some 0, off = 8, size' = \<lparr>DataSize = 8, PointerCount = 0\<rparr>, flags = 0\<rparr>
     4294967295 1 = (7, True)"
  by (simp add: dataAddress_def addOffset_def)

text \<open>
  C3 at the failing input.  The struct is backed, its data section is the bytes 8 to 15 of
  the segment, and the offset \<open>0xFFFFFFFF\<close> is out of range (\<open>off + 1 > DataSize\<close>).
  \<^verbatim>\<open>Uint8\<close> and \<^verbatim>\<open>Uint64\<close> return the byte 170 stored at address 7, before the struct, where
  the claim requires 0.  For the struct at address 0 the wrapped address is \<open>0xFFFFFFFF\<close>
  and the read of the segment panics, where the claim requires that the read never aborts.
\<close>

theorem Uint_wrapped_offset:
  "backed (\<lambda>i. [0, 0, 0, 0, 0, 0, 0, 170, 0, 0, 0, 0, 0, 0, 0, 0])
     \<lparr>seg = Some 0, off = 8, size' = \<lparr>DataSize = 8, PointerCount = 0\<rparr>, flags = 0\<rparr> \<and>
   unat (DataSize (size' \<lparr>seg = Some 0, off = 8, size' = \<lparr>DataSize = 8, PointerCount = 0\<rparr>, flags = 0\<rparr>))
     < unat (4294967295 :: DataOffset) + 1 \<and>
   Uint8 (\<lambda>i. [0, 0, 0, 0, 0, 0, 0, 170, 0, 0, 0, 0, 0, 0, 0, 0])
     \<lparr>seg = Some 0, off = 8, size' = \<lparr>DataSize = 8, PointerCount = 0\<rparr>, flags = 0\<rparr> 4294967295
     = Returns 170 \<and>
   Uint64 (\<lambda>i. [0, 0, 0, 0, 0, 0, 0, 170, 0, 0, 0, 0, 0, 0, 0, 0])
     \<lparr>seg = Some 0, off = 8, size' = \<lparr>DataSize = 8, PointerCount = 0\<rparr>, flags = 0\<rparr> 4294967295
     = Returns 170 \<and>
   Uint8 (\<lambda>i. [0, 0, 0, 0, 0, 0, 0, 170, 0, 0, 0, 0, 0, 0, 0, 0])
     \<lparr>seg = Some 0, off = 0, size' = \<lparr>DataSize = 8, PointerCount = 0\<rparr>, flags = 0\<rparr> 4294967295
     = Panics RuntimeBounds"
  by (simp add: backed_def isValid_def wordSize_def Uint8_def Uint64_def dataAddress_def
      addOffset_def readUint8_def readUint64_def readUint_def slice_def addSize_def)

text \<open>
  C5 at the failing input.  The same struct and offset: the write is out of range for the
  struct's declared size, yet \<^verbatim>\<open>SetUint8\<close> does not panic; it returns, having overwritten the
  byte at address 7, which lies outside the struct.
\<close>

theorem SetUint_wrapped_offset:
  "backed (\<lambda>i. [0, 0, 0, 0, 0, 0, 0, 170, 0, 0, 0, 0, 0, 0, 0, 0])
     \<lparr>seg = Some 0, off = 8, size' = \<lparr>DataSize = 8, PointerCount = 0\<rparr>, flags = 0\<rparr> \<and>
   unat (DataSize (size' \<lparr>seg = Some 0, off = 8, size' = \<lparr>DataSize = 8, PointerCount = 0\<rparr>, flags = 0\<rparr>))
     < unat (4294967295 :: DataOffset) + 1 \<and>
   SetUint8 (\<lambda>i. [0, 0, 0, 0, 0, 0, 0, 170, 0, 0, 0, 0, 0, 0, 0, 0])
     \<lparr>seg = Some 0, off = 8, size' = \<lparr>DataSize = 8, PointerCount = 0\<rparr>, flags = 0\<rparr> 4294967295 85
     = Returns ((\<lambda>i. [0, 0, 0, 0, 0, 0, 0, 170, 0, 0, 0, 0, 0, 0, 0, 0])
         (0 := [0, 0, 0, 0, 0, 0, 0, 85, 0, 0, 0, 0, 0, 0, 0, 0]))"
  by (simp add: backed_def isValid_def wordSize_def SetUint8_def dataAddress_def
      addOffset_def writeUint8_def writeUint_def slice_def addSize_def putBytes_def)

section \<open>The versioned copy\<close>

lemma zeroPtrs_zeroSlots:
  "zeroPtrs dst j st = zeroSlots dst [unat j..<unat (PointerCount (size' dst))] st"
proof (induction dst j st rule: zeroPtrs.induct)
  case (1 dst j st)
  show ?case
  proof (cases "j < PointerCount (size' dst)")
    case True
    note step = upt_word_step [OF True]
    show ?thesis
      apply (subst zeroPtrs.simps)
      apply (subst step)
      using True
      apply (simp add: Let_def element_slot del: zeroPtrs.simps split: outcome.splits)
      apply (intro allI impI)
      apply (rule "1.IH" [OF refl refl _ refl])
      apply (simp_all add: element_slot)
      done
  next
    case False
    moreover from False have "unat (PointerCount (size' dst)) \<le> unat j"
      by (simp add: word_less_nat_alt)
    ultimately show ?thesis
      by (subst zeroPtrs.simps) (auto simp add: Let_def simp del: zeroPtrs.simps)
  qed
qed

lemma pointer_loops:
  "(case copyPtrs rd wr cc dst src 0 st of
      Panics x \<Rightarrow> Panics x
    | Returns (st3, Some err) \<Rightarrow> Returns (st3, Some err)
    | Returns (st3, None) \<Rightarrow>
        (case zeroPtrs dst (PointerCount (size' src)) st3 of
           Panics x \<Rightarrow> Panics x
         | Returns st4 \<Rightarrow> Returns (st4, None)))
   = copyPointerSection rd wr cc dst src st"
proof -
  let ?sp = "PointerCount (size' src)" and ?dp = "PointerCount (size' dst)"
  have m: "unat (min ?sp ?dp) = min (unat ?sp) (unat ?dp)"
    by (simp add: min_def word_le_nat_alt)
  have z: "[unat ?sp..<unat ?dp] = [min (unat ?sp) (unat ?dp)..<unat ?dp]"
    by (cases "unat ?sp \<le> unat ?dp") (simp_all add: min_def)
  show ?thesis
    by (simp add: copyPointerSection_def copyPtrs_copySlots zeroPtrs_zeroSlots m z Let_def
        split: outcome.splits option.splits prod.splits)
qed

lemma slice_in_bounds_word:
  assumes "unat a + unat sz \<le> length (st i)" and "length (st i) < 2 ^ 32"
  shows "slice st (Some i) a sz = Returns (take (unat sz) (drop (unat a) (st i)))"
  using slice_in_bounds [of a "unat sz" st i, OF assms] by simp

lemma data_bytes:
  assumes "od + dd \<le> length D" and "m \<le> dd" and "length S = m"
  shows "take (od + m) (take od D @ S @ drop (od + m) D) @ replicate (dd - m) z
           @ drop (od + m + (dd - m)) (take od D @ S @ drop (od + m) D)
         = take od D @ S @ replicate (dd - m) z @ drop (od + dd) D"
  using assms by (simp add: add.commute)

lemma copyStruct_sections:
  assumes "backed st dst" and "backed st src"
  shows "copyStruct rd wr cc dst src st
           = copyPointerSection rd wr cc dst src (copyDataSection st dst src)"
proof -
  from assms(1) obtain d where d: "seg dst = Some d"
    and db: "unat (off dst) + unat (DataSize (size' dst)) \<le> length (st d)"
    and dl: "length (st d) < 2 ^ 32"
    by (auto simp: backed_def split: option.splits)
  from assms(2) obtain s where s: "seg src = Some s"
    and sb: "unat (off src) + unat (DataSize (size' src)) \<le> length (st s)"
    and sl: "length (st s) < 2 ^ 32"
    by (auto simp: backed_def split: option.splits)
  let ?od = "unat (off dst)" and ?dd = "unat (DataSize (size' dst))"
  let ?os = "unat (off src)" and ?sd = "unat (DataSize (size' src))"
  let ?srcData = "take ?sd (drop ?os (st s))"
  let ?dstData = "take ?dd (drop ?od (st d))"
  have ls: "length ?srcData = ?sd" using sb by simp
  have ld: "length ?dstData = ?dd" using db by simp
  let ?m = "min ?dd ?sd"
  let ?S = "take ?m ?srcData"
  have S: "?S = take (min ?sd ?dd) (drop ?os (st s))" by (simp add: min.commute)
  have lS: "length ?S = ?m" using ls by simp
  let ?st1 = "putBytes st d ?od ?S"
  let ?st2 = "putBytes ?st1 d (?od + ?m) (replicate (?dd - ?m) 0)"
  have "?st2 = st(d := take (?od + ?m) (take ?od (st d) @ ?S @ drop (?od + ?m) (st d))
                 @ replicate (?dd - ?m) 0
                 @ drop (?od + ?m + (?dd - ?m)) (take ?od (st d) @ ?S @ drop (?od + ?m) (st d)))"
    unfolding putBytes_def using lS by (simp del: take_take)
  also have "\<dots> = st(d := take ?od (st d) @ ?S @ replicate (?dd - ?m) 0 @ drop (?od + ?dd) (st d))"
    using data_bytes [OF db _ lS, of 0] by (simp only: min.cobounded1)
  also have "\<dots> = copyDataSection st dst src"
    unfolding S by (simp add: copyDataSection_def d s Let_def min.commute)
  finally have st2: "?st2 = copyDataSection st dst src" .
  have "copyStruct rd wr cc dst src st =
          (case copyPtrs rd wr cc dst src 0 ?st2 of
             Panics x \<Rightarrow> Panics x
           | Returns (st3, Some err) \<Rightarrow> Returns (st3, Some err)
           | Returns (st3, None) \<Rightarrow>
               (case zeroPtrs dst (PointerCount (size' src)) st3 of
                  Panics x \<Rightarrow> Panics x
                | Returns st4 \<Rightarrow> Returns (st4, None)))"
    unfolding copyStruct_def
    by (simp only: d s slice_in_bounds_word [of "off src" "DataSize (size' src)" st s, OF sb sl]
        slice_in_bounds_word [of "off dst" "DataSize (size' dst)" st d, OF db dl]
        outcome.case Let_def ls ld option.sel option.distinct if_False)
  then show ?thesis by (simp only: pointer_loops st2)
qed

lemma copyDataSection_bytes:
  assumes "backed st dst" and "backed st src"
    and d: "seg dst = Some d" and s: "seg src = Some s"
  shows "\<forall>i < min (unat (DataSize (size' src))) (unat (DataSize (size' dst))).
           copyDataSection st dst src d ! (unat (off dst) + i) = st s ! (unat (off src) + i)"
    and "\<forall>i. min (unat (DataSize (size' src))) (unat (DataSize (size' dst))) \<le> i \<and>
             i < unat (DataSize (size' dst)) \<longrightarrow>
           copyDataSection st dst src d ! (unat (off dst) + i) = 0"
    and "\<forall>a < length (st d). a < unat (off dst) \<or> unat (off dst) + unat (DataSize (size' dst)) \<le> a \<longrightarrow>
           copyDataSection st dst src d ! a = st d ! a"
    and "length (copyDataSection st dst src d) = length (st d)"
    and "\<forall>k. k \<noteq> d \<longrightarrow> copyDataSection st dst src k = st k"
proof -
  let ?od = "unat (off dst)" and ?dd = "unat (DataSize (size' dst))"
  let ?os = "unat (off src)" and ?sd = "unat (DataSize (size' src))"
  let ?m = "min ?sd ?dd"
  from assms(1) d have db: "?od + ?dd \<le> length (st d)" by (simp add: backed_def)
  from assms(2) s have sb: "?os + ?sd \<le> length (st s)" by (simp add: backed_def)
  let ?A = "take ?od (st d)" and ?B = "take ?m (drop ?os (st s))"
  let ?C = "replicate (?dd - ?m) (0 :: byte)" and ?D = "drop (?od + ?dd) (st d)"
  have eq: "copyDataSection st dst src d = ?A @ ?B @ ?C @ ?D"
    by (simp add: copyDataSection_def d s Let_def)
  have lA: "length ?A = ?od" using db by simp
  have lB: "length ?B = ?m" using sb by simp
  have lC: "length ?C = ?dd - ?m" by simp
  show "\<forall>i < ?m. copyDataSection st dst src d ! (?od + i) = st s ! (?os + i)"
    unfolding eq using lA lB sb by (simp add: nth_append)
  show "\<forall>i. ?m \<le> i \<and> i < ?dd \<longrightarrow> copyDataSection st dst src d ! (?od + i) = 0"
    unfolding eq using lA lB by (auto simp: nth_append)
  show "\<forall>a < length (st d). a < ?od \<or> ?od + ?dd \<le> a \<longrightarrow> copyDataSection st dst src d ! a = st d ! a"
  proof (intro allI impI)
    fix a assume a: "a < length (st d)" and r: "a < ?od \<or> ?od + ?dd \<le> a"
    from r show "copyDataSection st dst src d ! a = st d ! a"
    proof
      assume "a < ?od"
      then show ?thesis unfolding eq using lA by (simp add: nth_append)
    next
      assume h: "?od + ?dd \<le> a"
      have "(?A @ ?B @ ?C @ ?D) ! a = ((?A @ ?B @ ?C) @ ?D) ! a" by simp
      also have "\<dots> = ?D ! (a - (?od + ?dd))"
        using h lA lB by (subst nth_append) (simp add: min_def)
      also have "\<dots> = st d ! a" using h a by simp
      finally show ?thesis unfolding eq .
    qed
  qed
  have lD: "length ?D = length (st d) - (?od + ?dd)" by simp
  have "length (?A @ ?B @ ?C @ ?D) = ?od + (?m + ((?dd - ?m) + (length (st d) - (?od + ?dd))))"
    by (simp only: length_append lA lB lC lD)
  also have "\<dots> = length (st d)" using db by arith
  finally show "length (copyDataSection st dst src d) = length (st d)"
    unfolding eq .
  show "\<forall>k. k \<noteq> d \<longrightarrow> copyDataSection st dst src k = st k"
    by (simp add: copyDataSection_def d s Let_def)
qed

lemma copySlots_reader:
  assumes "\<forall>st' j. j \<in> set js \<longrightarrow>
             rd' st' (seg src) (slotAddress src j) = rd st' (seg src) (slotAddress src j)"
  shows "copySlots rd' wr cc dst src js st = copySlots rd wr cc dst src js st"
  using assms
proof (induction js arbitrary: st)
  case Nil
  show ?case by simp
next
  case (Cons j js)
  then have IH: "\<And>st1. copySlots rd' wr cc dst src js st1 = copySlots rd wr cc dst src js st1"
    and hd: "rd' st (seg src) (slotAddress src j) = rd st (seg src) (slotAddress src j)"
    by simp_all
  show ?case
    by (simp add: hd IH split: outcome.splits option.splits prod.splits)
qed

lemma slice_no_wrap:
  assumes "unat a + n \<le> length (st i)" and "unat a + n < 2 ^ 32"
  shows "slice st (Some i) a (of_nat n) = Returns (take n (drop (unat a) (st i)))"
proof -
  have "unat (a + of_nat n) = unat a + n"
    using assms(2) by (simp add: unat_word_ariths unat_of_nat)
  then show ?thesis using assms(1) by (simp add: slice_def addSize_def)
qed

lemma le_bytes_zero: "le_bytes n (0 :: 'a::len word) = replicate n 0"
  by (induction n) simp_all

lemma le_word_zero: "(le_word (replicate n 0) :: 'a::len word) = 0"
  by (induction n) simp_all

lemma writeRawPointer_success:
  assumes "writeRawPointer st s a v = Returns st1"
  shows "\<exists>d. s = Some d \<and> unat a + 8 \<le> length (st d) \<and> unat a + 8 < 2 ^ 32 \<and>
           st1 = putBytes st d (unat a) (le_bytes 8 v)"
proof (cases s)
  case None
  with assms show ?thesis by (simp add: writeRawPointer_def writeUint_def slice_def)
next
  case (Some d)
  with assms have b: "unat a \<le> unat (a + 8)" and h: "unat (a + 8) \<le> length (st d)"
    and r: "st1 = putBytes st d (unat a) (le_bytes 8 v)"
    by (auto simp: writeRawPointer_def writeUint_def slice_def addSize_def Let_def split: if_splits)
  have e: "unat (a + 8) = (unat a + 8) mod 4294967296" by (simp add: unat_word_ariths)
  have u: "unat a < 4294967296" using unsigned_less [of a] by simp
  have n: "unat a + 8 < 4294967296"
  proof (rule ccontr)
    assume "\<not> unat a + 8 < 4294967296"
    with u have "(unat a + 8) mod 4294967296 = unat a + 8 - 4294967296"
      by (simp add: mod_if)
    with b e u show False by simp
  qed
  with e have "unat (a + 8) = unat a + 8" by simp
  with n show ?thesis using Some h r by simp
qed

lemma zero_word_written:
  assumes "writeRawPointer st (Some d) a 0 = Returns st1"
  shows "length (st1 d) = length (st d)"
    and "\<forall>b < length (st d). st d ! b = 0 \<longrightarrow> st1 d ! b = 0"
    and "\<forall>b. unat a \<le> b \<and> b < unat a + 8 \<longrightarrow> st1 d ! b = 0"
    and "unat a + 8 \<le> length (st d)" and "unat a + 8 < 2 ^ 32"
proof -
  from writeRawPointer_success [OF assms]
  have b: "unat a + 8 \<le> length (st d)" and w: "unat a + 8 < 2 ^ 32"
    and r: "st1 = putBytes st d (unat a) (replicate 8 0)"
    by (simp_all add: le_bytes_zero)
  show "unat a + 8 \<le> length (st d)" by (rule b)
  show "unat a + 8 < 2 ^ 32" by (rule w)
  show "length (st1 d) = length (st d)" using b by (simp add: r putBytes_def)
  have l: "length (take (unat a) (st d)) = unat a" using b by simp
  show "\<forall>b. unat a \<le> b \<and> b < unat a + 8 \<longrightarrow> st1 d ! b = 0"
    using l by (auto simp: r putBytes_def nth_append)
  show "\<forall>b < length (st d). st d ! b = 0 \<longrightarrow> st1 d ! b = 0"
    using l b by (auto simp: r putBytes_def nth_append)
qed

lemma zeroSlots_keeps_zero:
  assumes "zeroSlots dst js st = Returns st'" and "seg dst = Some d"
  shows "length (st' d) = length (st d) \<and> (\<forall>b < length (st d). st d ! b = 0 \<longrightarrow> st' d ! b = 0)"
  using assms(1)
proof (induction js arbitrary: st)
  case Nil
  then show ?case by simp
next
  case (Cons j js)
  from Cons.prems obtain st1 where
    w: "writeRawPointer st (Some d) (slotAddress dst j) 0 = Returns st1"
    and z: "zeroSlots dst js st1 = Returns st'"
    by (auto simp: assms(2) split: outcome.splits)
  from Cons.IH [OF z] zero_word_written(1,2) [OF w] show ?case by simp
qed

lemma zeroSlots_zero:
  assumes "zeroSlots dst js st = Returns st'" and "j \<in> set js"
  shows "readRawPointer st' (seg dst) (slotAddress dst j) = Returns 0"
  using assms
proof (induction js arbitrary: st)
  case Nil
  then show ?case by simp
next
  case (Cons k js)
  from Cons.prems(1) obtain st1 where
    w: "writeRawPointer st (seg dst) (slotAddress dst k) 0 = Returns st1"
    and z: "zeroSlots dst js st1 = Returns st'"
    by (auto split: outcome.splits)
  from writeRawPointer_success [OF w] obtain d where d: "seg dst = Some d" by auto
  show ?case
  proof (cases "j \<in> set js")
    case True
    then show ?thesis using Cons.IH [OF z] by simp
  next
    case False
    with Cons.prems(2) have jk: "j = k" by simp
    let ?a = "slotAddress dst k"
    note zw = zero_word_written [OF w [unfolded d]]
    note keep = zeroSlots_keeps_zero [OF z d]
    have len: "unat ?a + 8 \<le> length (st' d)" using zw(1,4) keep by simp
    have "\<forall>b. unat ?a \<le> b \<and> b < unat ?a + 8 \<longrightarrow> st' d ! b = 0"
      using zw keep by auto
    then have "take 8 (drop (unat ?a) (st' d)) = replicate 8 0"
      using len by (auto simp: list_eq_iff_nth_eq)
    moreover have "slice st' (Some d) ?a (of_nat 8) = Returns (take 8 (drop (unat ?a) (st' d)))"
      using len zw(5) by (intro slice_no_wrap) simp_all
    ultimately show ?thesis
      using le_word_zero [of 8, where ?'a = 64]
      by (simp add: jk d readRawPointer_def readUint_def)
  qed
qed

text \<open>
  C1 (as amended).  With an unbacked destination \<^verbatim>\<open>copyStruct\<close> returns the store unchanged and no error.
  With a backed destination and a backed source it first makes the destination's data
  bytes equal to the first \<open>min(src.DataSize, dst.DataSize)\<close> data bytes of the source (as
  they were before the call) followed by zeros, every other byte of the store unchanged;
  it then is the pointer section of the spec run on that store: slots \<open>j < min\<close> are read
  from the source and written to the destination in order with the incremented context
  (a failing read or write ends the copy with its error), then the slots from
  \<open>src.PointerCount\<close> up to \<open>dst.PointerCount\<close> receive the zero word.  When the copy returns no
  error, each of those slots reads as the zero word in the final store.  The result does
  not depend on what a read of a source slot \<open>j \<ge> min\<close> would return.
\<close>

theorem copyStruct_effect:
  "(seg dst = None \<longrightarrow> copyStruct rd wr cc dst src st = Returns (st, None)) \<and>
   (backed st dst \<and> backed st src \<longrightarrow>
      (let d = the (seg dst); s = the (seg src);
           od = unat (off dst); os = unat (off src);
           dd = unat (DataSize (size' dst)); sd = unat (DataSize (size' src));
           dp = unat (PointerCount (size' dst)); sp = unat (PointerCount (size' src));
           st1 = copyDataSection st dst src
       in
       (\<forall>i < min sd dd. st1 d ! (od + i) = st s ! (os + i)) \<and>
       (\<forall>i. min sd dd \<le> i \<and> i < dd \<longrightarrow> st1 d ! (od + i) = 0) \<and>
       (\<forall>a < length (st d). a < od \<or> od + dd \<le> a \<longrightarrow> st1 d ! a = st d ! a) \<and>
       length (st1 d) = length (st d) \<and>
       (\<forall>k. k \<noteq> d \<longrightarrow> st1 k = st k) \<and>
       copyStruct rd wr cc dst src st = copyPointerSection rd wr cc dst src st1 \<and>
       (\<forall>st'. copyStruct rd wr cc dst src st = Returns (st', None) \<longrightarrow>
          (\<forall>j. sp \<le> j \<and> j < dp \<longrightarrow>
             readRawPointer st' (seg dst) (slotAddress dst j) = Returns 0)) \<and>
       (\<forall>rd'. (\<forall>st' j. j < min sp dp \<longrightarrow>
                 rd' st' (seg src) (slotAddress src j) = rd st' (seg src) (slotAddress src j)) \<longrightarrow>
          copyStruct rd' wr cc dst src st = copyStruct rd wr cc dst src st)))"
proof (intro conjI impI)
  assume "seg dst = None"
  then show "copyStruct rd wr cc dst src st = Returns (st, None)"
    by (simp add: copyStruct_def)
next
  assume b: "backed st dst \<and> backed st src"
  then have bd: "backed st dst" and bs: "backed st src" by simp_all
  from bd obtain d where d: "seg dst = Some d" by (auto simp: backed_def split: option.splits)
  from bs obtain s where s: "seg src = Some s" by (auto simp: backed_def split: option.splits)
  let ?st1 = "copyDataSection st dst src"
  let ?sp = "unat (PointerCount (size' src))" and ?dp = "unat (PointerCount (size' dst))"
  note bytes = copyDataSection_bytes [OF bd bs d s]
  have sections: "copyStruct rd wr cc dst src st = copyPointerSection rd wr cc dst src ?st1" for rd :: "'a ptrReader"
    by (rule copyStruct_sections [OF bd bs])
  have zeros: "\<forall>st'. copyStruct rd wr cc dst src st = Returns (st', None) \<longrightarrow>
          (\<forall>j. ?sp \<le> j \<and> j < ?dp \<longrightarrow>
             readRawPointer st' (seg dst) (slotAddress dst j) = Returns 0)"
  proof (intro allI impI)
    fix st' j
    assume r: "copyStruct rd wr cc dst src st = Returns (st', None)" and j: "?sp \<le> j \<and> j < ?dp"
    from r obtain st2 where
      z: "zeroSlots dst [min ?sp ?dp..<?dp] st2 = Returns st'"
      unfolding sections copyPointerSection_def Let_def
      by (auto split: outcome.splits option.splits prod.splits)
    from j have "j \<in> set [min ?sp ?dp..<?dp]" by simp
    from zeroSlots_zero [OF z this]
    show "readRawPointer st' (seg dst) (slotAddress dst j) = Returns 0" .
  qed
  have readers: "\<forall>rd'. (\<forall>st' j. j < min ?sp ?dp \<longrightarrow>
                 rd' st' (seg src) (slotAddress src j) = rd st' (seg src) (slotAddress src j)) \<longrightarrow>
          copyStruct rd' wr cc dst src st = copyStruct rd wr cc dst src st"
  proof (intro allI impI)
    fix rd' :: "'a ptrReader"
    assume "\<forall>st' j. j < min ?sp ?dp \<longrightarrow>
                 rd' st' (seg src) (slotAddress src j) = rd st' (seg src) (slotAddress src j)"
    then have "copySlots rd' wr (incDepth cc) dst src [0..<min ?sp ?dp] st2
             = copySlots rd wr (incDepth cc) dst src [0..<min ?sp ?dp] st2" for st2
      by (intro copySlots_reader) simp
    then show "copyStruct rd' wr cc dst src st = copyStruct rd wr cc dst src st"
      by (simp add: sections copyPointerSection_def)
  qed
  from bytes sections zeros readers
  show "let d = the (seg dst); s = the (seg src);
           od = unat (off dst); os = unat (off src);
           dd = unat (DataSize (size' dst)); sd = unat (DataSize (size' src));
           dp = unat (PointerCount (size' dst)); sp = unat (PointerCount (size' src));
           st1 = copyDataSection st dst src
       in
       (\<forall>i < min sd dd. st1 d ! (od + i) = st s ! (os + i)) \<and>
       (\<forall>i. min sd dd \<le> i \<and> i < dd \<longrightarrow> st1 d ! (od + i) = 0) \<and>
       (\<forall>a < length (st d). a < od \<or> od + dd \<le> a \<longrightarrow> st1 d ! a = st d ! a) \<and>
       length (st1 d) = length (st d) \<and>
       (\<forall>k. k \<noteq> d \<longrightarrow> st1 k = st k) \<and>
       copyStruct rd wr cc dst src st = copyPointerSection rd wr cc dst src st1 \<and>
       (\<forall>st'. copyStruct rd wr cc dst src st = Returns (st', None) \<longrightarrow>
          (\<forall>j. sp \<le> j \<and> j < dp \<longrightarrow>
             readRawPointer st' (seg dst) (slotAddress dst j) = Returns 0)) \<and>
       (\<forall>rd'. (\<forall>st' j. j < min sp dp \<longrightarrow>
                 rd' st' (seg src) (slotAddress src j) = rd st' (seg src) (slotAddress src j)) \<longrightarrow>
          copyStruct rd' wr cc dst src st = copyStruct rd wr cc dst src st)"
    unfolding Let_def d s option.sel by blast
qed

lemma grow_eval:
  "copyStruct readPtr (writePtr 32 4194304) \<lparr>depth = 0\<rparr> growDst growSrc growStore
     = Returns (growStore(1 := [1, 2, 3, 4, 5, 6, 7, 8] @ replicate 24 0), None)"
  by (simp add: copyStruct_def growDst_def growSrc_def growStore_def slice_def addSize_def putBytes_def
      copyPtrs.simps zeroPtrs.simps element_def wordSize_def readPtr_def readRawPointer_def
      readUint_def writePtr.simps IsValid_def writeRawPointer_def writeUint_def incDepth_def
      Let_def le_bytes_zero replicate_add [symmetric])

theorem copyStruct_effect_witness:
  "backed growStore growDst \<and> backed growStore growSrc \<and>
   copyStruct readPtr (writePtr 32 4194304) \<lparr>depth = 0\<rparr> growDst growSrc growStore
     = Returns (growStore(1 := [1, 2, 3, 4, 5, 6, 7, 8] @ replicate 24 0), None) \<and>
   copyDataSection growStore growDst growSrc 1 ! 3 = 4 \<and>
   copyDataSection growStore growDst growSrc 1 ! 12 = 0 \<and>
   copyDataSection growStore growDst growSrc 1 ! 20 = 255 \<and>
   readRawPointer (growStore(1 := [1, 2, 3, 4, 5, 6, 7, 8] @ replicate 24 0)) (Some 1)
     (slotAddress growDst 1) = Returns 0 \<and>
   copyStruct readPtr (writePtr 32 4194304) \<lparr>depth = 0\<rparr> zeroStruct growSrc growStore
     = Returns (growStore, None)"
proof -
  let ?rd = "readPtr" and ?wr = "writePtr 32 4194304" and ?cc = "\<lparr>depth = 0\<rparr>"
  let ?fin = "growStore(1 := [1, 2, 3, 4, 5, 6, 7, 8] @ replicate 24 0)"
  have bd: "backed growStore growDst"
    by (simp add: backed_def growStore_def growDst_def isValid_def wordSize_def)
  have bs: "backed growStore growSrc"
    by (simp add: backed_def growStore_def growSrc_def isValid_def wordSize_def)
  note e = copyStruct_effect [of growDst ?rd ?wr ?cc growSrc growStore]
  note n = copyStruct_effect [of zeroStruct ?rd ?wr ?cc growSrc growStore]
  from n have noop: "copyStruct ?rd ?wr ?cc zeroStruct growSrc growStore = Returns (growStore, None)"
    by (simp add: zeroStruct_def)
  from e bd bs have
    d1: "\<forall>i < 8. copyDataSection growStore growDst growSrc 1 ! i = growStore 0 ! i"
    and d2: "\<forall>i. 8 \<le> i \<and> i < 16 \<longrightarrow> copyDataSection growStore growDst growSrc 1 ! i = 0"
    and d3: "\<forall>a < length (growStore 1). 16 \<le> a \<longrightarrow>
               copyDataSection growStore growDst growSrc 1 ! a = growStore 1 ! a"
    and z: "\<forall>st'. copyStruct ?rd ?wr ?cc growDst growSrc growStore = Returns (st', None) \<longrightarrow>
              (\<forall>j. 1 \<le> j \<and> j < 2 \<longrightarrow>
                 readRawPointer st' (seg growDst) (slotAddress growDst j) = Returns 0)"
    by (simp_all add: Let_def growDst_def growSrc_def)
  from d1 have b3: "copyDataSection growStore growDst growSrc 1 ! 3 = 4"
    by (simp add: growStore_def)
  from d2 have b12: "copyDataSection growStore growDst growSrc 1 ! 12 = 0" by simp
  from d3 have b20: "copyDataSection growStore growDst growSrc 1 ! 20 = 255"
    by (simp add: growStore_def)
  from z grow_eval have "readRawPointer ?fin (seg growDst) (slotAddress growDst 1) = Returns 0"
    by simp
  then have s1: "readRawPointer ?fin (Some 1) (slotAddress growDst 1) = Returns 0"
    by (simp add: growDst_def)
  from bd bs grow_eval b3 b12 b20 s1 noop show ?thesis by simp
qed

text \<open>
  The claim C1 as stated (every destination slot from \<open>src.PointerCount\<close> up to
  \<open>dst.PointerCount\<close> receives the zero word, for every backed source) fails when a
  sub-pointer cannot be read.  The source's only slot holds a struct pointer whose target
  lies outside the segment: the read fails, \<^verbatim>\<open>copyStruct\<close> returns that error after the data
  section has been copied, and slot 1 of the destination keeps its stale bytes.
\<close>

theorem copyStruct_abort_counterexample:
  "backed abortStore growDst \<and> backed abortStore growSrc \<and>
   copyStruct readPtr (writePtr 32 4194304) \<lparr>depth = 0\<rparr> growDst growSrc abortStore
     = Returns (abortStore(1 := [1, 2, 3, 4, 5, 6, 7, 8,  0, 0, 0, 0, 0, 0, 0, 0,
        255, 255, 255, 255, 255, 255, 255, 255,  255, 255, 255, 255, 255, 255, 255, 255]),
                Some errPointerAddress) \<and>
   unat (PointerCount (size' growSrc)) \<le> 1 \<and> 1 < unat (PointerCount (size' growDst)) \<and>
   readRawPointer (abortStore(1 := [1, 2, 3, 4, 5, 6, 7, 8,  0, 0, 0, 0, 0, 0, 0, 0,
        255, 255, 255, 255, 255, 255, 255, 255,  255, 255, 255, 255, 255, 255, 255, 255]))
     (seg growDst) (slotAddress growDst 1) = Returns 18446744073709551615"
  by (simp add: backed_def isValid_def
      copyStruct_def growDst_def growSrc_def abortStore_def slice_def addSize_def putBytes_def
      copyPtrs.simps zeroPtrs.simps element_def wordSize_def readPtr_def readRawPointer_def
      readUint_def incDepth_def resolve_def structSize_def regionInBounds_def totalSize_def
      slotAddress_def Let_def)

section \<open>The recursion bound of the deep copy\<close>

lemma slice_segment:
  assumes "st' s = st s"
  shows "slice st' (Some s) a n = slice st (Some s) a n"
  unfolding slice_def option.case assms ..

lemma readPtr_segment:
  assumes "st' s = st s"
  shows "readPtr st' (Some s) a = readPtr st (Some s) a"
proof -
  have 1: "readRawPointer st' (Some s) a = readRawPointer st (Some s) a"
    by (simp add: readRawPointer_def readUint_def slice_segment [of st' s st, OF assms])
  have 2: "regionInBounds st' (Some s) = regionInBounds st (Some s)"
    by (intro ext) (simp add: regionInBounds_def assms)
  show ?thesis unfolding readPtr_def 1 2 ..
qed

lemma readPtr_struct:
  assumes "readPtr st s a = Returns (StructPointer q, None)"
  shows "seg q = s" and "s \<noteq> None"
  using assms
  by (auto simp: readPtr_def readRawPointer_def readUint_def slice_def regionInBounds_def Let_def
      split: outcome.splits if_splits option.splits)

lemma backed_segment:
  assumes "st' s = st s" and "seg p = Some s"
  shows "backed st' p = backed st p"
  using assms by (simp add: backed_def)

lemma nested_segment:
  assumes "st' s = st s" and "seg p = Some s" and "nested st p k"
  shows "nested st' p k"
  using assms(2,3)
proof (induction k arbitrary: p)
  case 0
  show ?case by simp
next
  case (Suc k)
  from Suc.prems(2) obtain q where
    b: "backed st p" and c: "1 \<le> unat (PointerCount (size' p))"
    and r: "readPtr st (seg p) (slotAddress p 0) = Returns (StructPointer q, None)"
    and n: "nested st q k"
    by (auto split: outcome.splits prod.splits Pointer.splits option.splits)
  from readPtr_struct(1) [OF r] Suc.prems(1) have q: "seg q = Some s" by simp
  have r': "readPtr st' (seg p) (slotAddress p 0) = Returns (StructPointer q, None)"
    using r readPtr_segment [of st' s st, OF assms(1)] Suc.prems(1) by simp
  from Suc.IH [OF q n] b c r' show ?case
    by (simp add: backed_segment [of st' s st, OF assms(1) Suc.prems(1)])
qed

lemma NewStruct_alloc:
  assumes v: "isValid sz"
    and c: "length (st d) + (roundedDataSize sz + 8 * unat (PointerCount sz)) \<le> cap"
    and l: "cap < 2 ^ 32"
  shows "NewStruct (alloc cap) st (Some d) sz =
           Returns (st(d := st d @ replicate (roundedDataSize sz + 8 * unat (PointerCount sz)) 0),
             \<lparr>seg = Some d, off = of_nat (length (st d)),
              size' = \<lparr>DataSize = of_nat (roundedDataSize sz), PointerCount = PointerCount sz\<rparr>,
              flags = 0\<rparr>, None)"
proof -
  let ?sz1 = "sz\<lparr>DataSize := padToWord (DataSize sz)\<rparr>"
  from v have d: "unat (DataSize sz) \<le> 524280" by (simp add: isValid_unat)
  have "unat (padToWord (DataSize sz)) = roundedDataSize sz"
    using d by (simp add: padToWord_unat roundedDataSize_def)
  then have 1: "padToWord (DataSize sz) = of_nat (roundedDataSize sz)"
    by (metis of_nat_unat ucast_id)
  have 0: "?sz1 = \<lparr>DataSize = of_nat (roundedDataSize sz), PointerCount = PointerCount sz\<rparr>"
    using 1 by (cases sz) simp
  have "unat (totalSize ?sz1) = roundedDataSize sz + 8 * unat (PointerCount sz)"
    using v by (rule totalSize_padded)
  then have 2: "unat (totalSize \<lparr>DataSize = of_nat (roundedDataSize sz), PointerCount = PointerCount sz\<rparr>)
      = roundedDataSize sz + 8 * unat (PointerCount sz)"
    unfolding 0 .
  show ?thesis
    using v c by (simp add: NewStruct_def alloc_def Let_def 0 2)
qed

lemma rounded_total_bound:
  assumes "isValid sz"
  shows "roundedDataSize sz \<le> 524280" and "roundedDataSize sz + 8 * unat (PointerCount sz) \<le> 1048560"
proof -
  from assms have d: "unat (DataSize sz) \<le> 524280" by (simp add: isValid_unat)
  then show r: "roundedDataSize sz \<le> 524280" by (simp add: roundedDataSize_def)
  have "unat (PointerCount sz) < 65536" using unsigned_less [of "PointerCount sz"] by simp
  with r show "roundedDataSize sz + 8 * unat (PointerCount sz) \<le> 1048560" by simp
qed

lemma new_struct_backed:
  assumes v: "isValid sz"
    and c: "length (st d) + (roundedDataSize sz + 8 * unat (PointerCount sz)) \<le> cap"
    and l: "cap < 2 ^ 32"
  shows "backed (st(d := st d @ replicate (roundedDataSize sz + 8 * unat (PointerCount sz)) 0))
           \<lparr>seg = Some d, off = of_nat (length (st d)),
            size' = \<lparr>DataSize = of_nat (roundedDataSize sz), PointerCount = PointerCount sz\<rparr>,
            flags = 0\<rparr>"
proof -
  note rb = rounded_total_bound [OF v]
  have 1: "unat (of_nat (roundedDataSize sz) :: 32 word) = roundedDataSize sz"
    using rb(1) by (simp add: unat_of_nat)
  have 2: "unat (of_nat (length (st d)) :: 32 word) = length (st d)"
    using c l by (simp add: unat_of_nat)
  show ?thesis
    using rb c l by (simp add: backed_def isValid_unat 1 2)
qed

lemma copyStruct_first_slot:
  assumes bd: "backed st dst" and bs: "backed st src"
    and d: "seg dst = Some d" and s: "seg src = Some s" and ds: "d \<noteq> s"
    and pd: "1 \<le> unat (PointerCount (size' dst))" and ps: "1 \<le> unat (PointerCount (size' src))"
    and r: "readPtr st (seg src) (slotAddress src 0) = Returns (m, None)"
    and w: "wr (incDepth cc) (copyDataSection st dst src) (seg dst) (slotAddress dst 0) m
              = Returns (st2, Some err)"
  shows "copyStruct readPtr wr cc dst src st = Returns (st2, Some err)"
proof -
  let ?st1 = "copyDataSection st dst src"
  let ?n = "min (unat (PointerCount (size' src))) (unat (PointerCount (size' dst)))"
  from copyDataSection_bytes(5) [OF bd bs d s] ds have "?st1 s = st s" by simp
  then have r1: "readPtr ?st1 (seg src) (slotAddress src 0) = Returns (m, None)"
    using r readPtr_segment [of ?st1 s st] by (simp add: s)
  from pd ps have "0 < ?n" by simp
  then have u: "[0..<?n] = 0 # [1..<?n]" by (simp add: upt_conv_Cons)
  show ?thesis
    unfolding copyStruct_sections [OF bd bs] copyPointerSection_def Let_def u
    by (simp add: r1 w)
qed

lemma nested_Suc:
  assumes "nested st p (Suc k)"
  obtains q where "backed st p" and "1 \<le> unat (PointerCount (size' p))"
    and "readPtr st (seg p) (slotAddress p 0) = Returns (StructPointer q, None)"
    and "nested st q k" and "seg q = seg p" and "seg p \<noteq> None"
proof -
  from assms obtain q where
    b: "backed st p" and c: "1 \<le> unat (PointerCount (size' p))"
    and r: "readPtr st (seg p) (slotAddress p 0) = Returns (StructPointer q, None)"
    and n: "nested st q k"
    by (auto split: outcome.splits prod.splits Pointer.splits option.splits)
  from readPtr_struct [OF r] that [OF b c r n] show thesis by simp
qed

lemma writePtr_too_deep:
  assumes "lim \<le> depth cc" and "seg q \<noteq> None"
  shows "writePtr lim cap cc st s a (StructPointer q) = Returns (st, Some NestingTooDeep)"
  using assms by (subst writePtr.simps) (simp add: IsValid_def Segment_def)

lemma nesting_limit_step:
  assumes "nested st src (Suc k)" and "lim \<le> depth cc + Suc k"
    and "backed st dst" and "1 \<le> unat (PointerCount (size' dst))"
    and "seg dst = Some d" and "seg src = Some s" and "d \<noteq> s"
    and "length (st d) + 1048560 * (lim - depth cc) \<le> cap" and "cap < 2 ^ 32"
  shows "\<exists>st'. copyStruct readPtr (writePtr lim cap) cc dst src st = Returns (st', Some NestingTooDeep)"
  using assms
proof (induction k arbitrary: st cc dst src)
  case 0
  from "0.prems"(1) obtain q where bs: "backed st src" and ps: "1 \<le> unat (PointerCount (size' src))"
    and r: "readPtr st (seg src) (slotAddress src 0) = Returns (StructPointer q, None)"
    and q: "seg q = seg src"
    by (rule nested_Suc)
  from "0.prems"(2) have "lim \<le> depth (incDepth cc)" by (simp add: incDepth_def)
  moreover from q "0.prems"(6) have "seg q \<noteq> None" by simp
  ultimately have w: "writePtr lim cap (incDepth cc) (copyDataSection st dst src) (seg dst)
      (slotAddress dst 0) (StructPointer q)
        = Returns (copyDataSection st dst src, Some NestingTooDeep)"
    by (rule writePtr_too_deep)
  from copyStruct_first_slot [where wr = "writePtr lim cap", OF "0.prems"(3) bs "0.prems"(5,6,7,4) ps r w]
  show ?case by blast
next
  case (Suc k)
  from Suc.prems(1) obtain q where bs: "backed st src" and ps: "1 \<le> unat (PointerCount (size' src))"
    and r: "readPtr st (seg src) (slotAddress src 0) = Returns (StructPointer q, None)"
    and nq: "nested st q (Suc k)" and q: "seg q = seg src"
    by (rule nested_Suc)
  from q Suc.prems(6) have qs: "seg q = Some s" by simp
  let ?st1 = "copyDataSection st dst src"
  let ?a = "slotAddress dst 0"
  note bytes = copyDataSection_bytes [OF Suc.prems(3) bs Suc.prems(5,6)]
  show ?case
  proof (cases "lim \<le> depth (incDepth cc)")
    case True
    with qs have w: "writePtr lim cap (incDepth cc) ?st1 (seg dst) ?a (StructPointer q)
        = Returns (?st1, Some NestingTooDeep)"
      by (intro writePtr_too_deep) simp_all
    from copyStruct_first_slot [where wr = "writePtr lim cap", OF Suc.prems(3) bs Suc.prems(5,6,7,4) ps r w]
    show ?thesis by blast
  next
    case False
    then have deep: "depth cc + 1 < lim" by (simp add: incDepth_def)
    from nq obtain bq: "backed st q" and pq: "1 \<le> unat (PointerCount (size' q))"
      by (rule nested_Suc)
    from bq qs have vq: "isValid (size' q)" by (simp add: backed_def)
    let ?total = "roundedDataSize (size' q) + 8 * unat (PointerCount (size' q))"
    note rb = rounded_total_bound [OF vq]
    have len1: "length (?st1 d) = length (st d)" by (rule bytes(4))
    have room: "length (?st1 d) + ?total \<le> cap"
    proof -
      from deep have "1048560 \<le> 1048560 * (lim - depth cc)" by simp
      with rb(2) Suc.prems(8) len1 show ?thesis by simp
    qed
    let ?st2 = "?st1(d := ?st1 d @ replicate ?total 0)"
    let ?n = "\<lparr>seg = Some d, off = of_nat (length (?st1 d)),
               size' = \<lparr>DataSize = of_nat (roundedDataSize (size' q)),
                         PointerCount = PointerCount (size' q)\<rparr>,
               flags = 0\<rparr>"
    have new: "NewStruct (alloc cap) ?st1 (Some d) (size' q) = Returns (?st2, ?n, None)"
      by (rule NewStruct_alloc [where st = ?st1 and d = d, OF vq room Suc.prems(9)])
    have bn: "backed ?st2 ?n"
      by (rule new_struct_backed [where st = ?st1 and d = d, OF vq room Suc.prems(9)])
    have "?st1 s = st s" using bytes(5) Suc.prems(7) by simp
    then have st2s: "?st2 s = st s" using Suc.prems(7) by simp
    have nq2: "nested ?st2 q (Suc k)"
      by (rule nested_segment [of ?st2 s st, OF st2s qs nq])
    have lim2: "lim \<le> depth (incDepth cc) + Suc k"
      using Suc.prems(2) by (simp add: incDepth_def)
    have cap2: "length (?st2 d) + 1048560 * (lim - depth (incDepth cc)) \<le> cap"
    proof -
      have "1048560 * (lim - depth cc) = 1048560 + 1048560 * (lim - (depth cc + 1))"
        using deep by (simp add: algebra_simps)
      with rb(2) Suc.prems(8) len1 show ?thesis by (simp add: incDepth_def)
    qed
    have pn: "1 \<le> unat (PointerCount (size' ?n))" using pq by simp
    have sn: "seg ?n = Some d" by simp
    have "\<exists>st'. copyStruct readPtr (writePtr lim cap) (incDepth cc) ?n q ?st2
            = Returns (st', Some NestingTooDeep)"
      by (rule Suc.IH [OF nq2 lim2 bn pn sn qs Suc.prems(7) cap2 Suc.prems(9)])
    then obtain st3 where inner:
      "copyStruct readPtr (writePtr lim cap) (incDepth cc) ?n q ?st2 = Returns (st3, Some NestingTooDeep)"
      ..
    have w: "writePtr lim cap (incDepth cc) ?st1 (seg dst) ?a (StructPointer q)
        = Returns (st3, Some NestingTooDeep)"
      using False qs
      by (subst writePtr.simps) (simp add: IsValid_def Segment_def Suc.prems(5) new inner)
    from copyStruct_first_slot [where wr = "writePtr lim cap", OF Suc.prems(3) bs Suc.prems(5,6,7,4) ps r w]
    show ?thesis by blast
  qed
qed



end
